theory Spec2Isabelle
  imports Complex_Main
begin

section \<open>Arrays\<close>

text \<open>
  The classifier of \<^verbatim>\<open>train.py\<close> computes on two-dimensional numpy arrays. An
  array is modelled by its shape and its cells; the cells are real numbers, so the
  rounding, the infinities and the NaN of 64-bit floats are idealised away. Where numpy
  divides by zero or takes the logarithm of a non-positive number it warns and goes on
  with an infinity or a NaN; the model goes on as well, with the value HOL gives to the
  operation. No theorem below depends on such a value.

  The errors are the exceptions the code can raise: numpy's \<^verbatim>\<open>ValueError\<close> for shapes
  that do not fit and the one of the count check, the \<^verbatim>\<open>KeyError\<close> of the registry
  with its key, the \<^verbatim>\<open>IndexError\<close> of a list read out of range, and the
  \<^verbatim>\<open>NameError\<close> of a local variable read before it is bound, with its name.
\<close>

datatype error = ValueError string | KeyError string | IndexError | NameError string

datatype 'a ndarray = NDArray (nrows: nat) (ncols: nat) (cell: "nat \<Rightarrow> nat \<Rightarrow> 'a")

type_synonym farray = "real ndarray"

definition map_array :: "('a \<Rightarrow> 'b) \<Rightarrow> 'a ndarray \<Rightarrow> 'b ndarray" where
  "map_array f A = NDArray (nrows A) (ncols A) (\<lambda>i j. f (cell A i j))"

text \<open>
  numpy's broadcasting of two shapes, one axis at a time: equal lengths agree, a length
  of 1 is stretched to the other length, anything else is refused.
\<close>

definition bdim :: "nat \<Rightarrow> nat \<Rightarrow> nat option" where
  "bdim a b = (if a = b then Some a else if a = 1 then Some b else if b = 1 then Some a else None)"

definition bidx :: "nat \<Rightarrow> nat \<Rightarrow> nat" where
  "bidx n i = (if n = 1 then 0 else i)"

definition broadcast2 :: "(real \<Rightarrow> real \<Rightarrow> real) \<Rightarrow> farray \<Rightarrow> farray \<Rightarrow> error + farray" where
  "broadcast2 f A B =
     (case bdim (nrows A) (nrows B) of
        None \<Rightarrow> Inl (ValueError ''operands could not be broadcast together'')
      | Some r \<Rightarrow>
         (case bdim (ncols A) (ncols B) of
            None \<Rightarrow> Inl (ValueError ''operands could not be broadcast together'')
          | Some c \<Rightarrow>
              Inr (NDArray r c
                (\<lambda>i j. f (cell A (bidx (nrows A) i) (bidx (ncols A) j))
                         (cell B (bidx (nrows B) i) (bidx (ncols B) j))))))"

text \<open>
  An in-place operator (\<^verbatim>\<open>A *= B\<close>, \<^verbatim>\<open>A -= B\<close>) writes the broadcast result
  into \<open>A\<close>, and is refused when that result has another shape than \<open>A\<close>.
\<close>

definition inplace2 :: "(real \<Rightarrow> real \<Rightarrow> real) \<Rightarrow> farray \<Rightarrow> farray \<Rightarrow> error + farray" where
  "inplace2 f A B =
     (case broadcast2 f A B of
        Inl e \<Rightarrow> Inl e
      | Inr C \<Rightarrow>
          if nrows C = nrows A \<and> ncols C = ncols A then Inr C
          else Inl (ValueError ''non-broadcastable output operand''))"

definition dot :: "farray \<Rightarrow> farray \<Rightarrow> error + farray" where
  "dot A B =
     (if ncols A = nrows B
      then Inr (NDArray (nrows A) (ncols B) (\<lambda>i j. \<Sum>k<ncols A. cell A i k * cell B k j))
      else Inl (ValueError ''shapes not aligned''))"

definition np_T :: "'a ndarray \<Rightarrow> 'a ndarray" where
  "np_T A = NDArray (ncols A) (nrows A) (\<lambda>i j. cell A j i)"

definition sum_axis0 :: "farray \<Rightarrow> farray" where
  \<comment> \<open>\<^verbatim>\<open>np.sum(A, axis=0, keepdims=True)\<close>\<close>
  "sum_axis0 A = NDArray 1 (ncols A) (\<lambda>i j. \<Sum>k<nrows A. cell A k j)"

definition sum_all :: "farray \<Rightarrow> real" where
  "sum_all A = (\<Sum>i<nrows A. \<Sum>j<ncols A. cell A i j)"

definition mean_all :: "farray \<Rightarrow> real" where
  "mean_all A = sum_all A / real (nrows A * ncols A)"

definition zeros :: "nat \<Rightarrow> nat \<Rightarrow> farray" where
  "zeros r c = NDArray r c (\<lambda>i j. 0)"

definition py_get :: "'a list \<Rightarrow> nat \<Rightarrow> error + 'a" where
  \<comment> \<open>\<^verbatim>\<open>xs[i]\<close> for an index that is not negative\<close>
  "py_get xs i = (if i < length xs then Inr (xs ! i) else Inl IndexError)"

definition py_last :: "'a list \<Rightarrow> error + 'a" where
  \<comment> \<open>\<^verbatim>\<open>xs[-1]\<close>\<close>
  "py_last xs = (if xs = [] then Inl IndexError else Inr (last xs))"

section \<open>The random generator\<close>

text \<open>
  numpy's global generator is modelled by the values it is going to hand out: those
  of the coming \<^verbatim>\<open>randn\<close> requests and those of the coming \<^verbatim>\<open>rand\<close> requests.
  A request for an array of shape \<open>(r, c)\<close> takes the next \<open>r * c\<close> values, row by row,
  one value of its own for every cell.
\<close>

record rng =
  randn_draws :: "nat \<Rightarrow> real"
  rand_draws :: "nat \<Rightarrow> real"

definition np_randn :: "int \<Rightarrow> int \<Rightarrow> rng \<Rightarrow> error + (farray \<times> rng)" where
  "np_randn r c g =
     (if r < 0 \<or> c < 0 then Inl (ValueError ''negative dimensions are not allowed'')
      else Inr (NDArray (nat r) (nat c) (\<lambda>i j. randn_draws g (i * nat c + j)),
                g\<lparr>randn_draws := (\<lambda>k. randn_draws g (k + nat r * nat c))\<rparr>))"

definition np_rand :: "nat \<Rightarrow> nat \<Rightarrow> rng \<Rightarrow> farray \<times> rng" where
  "np_rand r c g =
     (NDArray r c (\<lambda>i j. rand_draws g (i * c + j)),
      g\<lparr>rand_draws := (\<lambda>k. rand_draws g (k + r * c))\<rparr>)"

text \<open>The generator after \<open>n\<close> more values of its \<^verbatim>\<open>rand\<close> stream have been taken.\<close>

definition skip_rand :: "nat \<Rightarrow> rng \<Rightarrow> rng" where
  "skip_rand n g = g\<lparr>rand_draws := (\<lambda>k. rand_draws g (k + n))\<rparr>"

section \<open>Activations, loss and penalty\<close>

definition sigmoid :: "farray \<Rightarrow> farray" where
  "sigmoid = map_array (\<lambda>x. 1 / (1 + exp (- x)))"

definition sigmoidDerivative :: "farray \<Rightarrow> farray" where
  "sigmoidDerivative = map_array (\<lambda>x. x * (1 - x))"

definition relu :: "farray \<Rightarrow> farray" where
  "relu = map_array (\<lambda>x. max 0 x)"

definition reluDerivative :: "farray \<Rightarrow> farray" where
  "reluDerivative = map_array (\<lambda>x. if x > 0 then 1 else 0)"

definition ACTIVATIONS :: "string \<rightharpoonup> (farray \<Rightarrow> farray) \<times> (farray \<Rightarrow> farray)" where
  "ACTIVATIONS =
     [''sigmoid'' \<mapsto> (sigmoid, sigmoidDerivative), ''relu'' \<mapsto> (relu, reluDerivative)]"

definition eps :: real where
  \<comment> \<open>the literal \<^verbatim>\<open>1e-8\<close>\<close>
  "eps = 1 / 10 ^ 8"

definition binary_cross_entropy :: "farray \<Rightarrow> farray \<Rightarrow> error + real" where
  "binary_cross_entropy y_true y_pred =
     (case broadcast2 (\<lambda>t p. t * ln (p + eps) + (1 - t) * ln (1 - p + eps)) y_true y_pred of
        Inl e \<Rightarrow> Inl e
      | Inr L \<Rightarrow> Inr (- mean_all L))"

definition binary_cross_entropyDerivative :: "farray \<Rightarrow> farray \<Rightarrow> error + farray" where
  "binary_cross_entropyDerivative y_true y_pred =
     broadcast2 (\<lambda>t p. (p - t) / (p * (1 - p) + eps)) y_true y_pred"

definition l2_penalty :: "farray list \<Rightarrow> real \<Rightarrow> real" where
  "l2_penalty ws alpha = alpha * sum_list (map (\<lambda>w. sum_all (map_array (\<lambda>x. x ^ 2) w)) ws)"

section \<open>The classifier\<close>

record MLPBinaryClassifier =
  input_size :: int
  hidden_layers :: "int list"
  activations :: "string list"
  learning_rate :: real
  epochs :: int
  l2_lambda :: real
  dropout_rates :: "real list"
  weights :: "farray list"
  biases :: "farray list"
  activation_funcs :: "(farray \<Rightarrow> farray) list"
  activation_derivatives :: "(farray \<Rightarrow> farray) list"
  train_losses :: "real list"
  val_losses :: "real list"

subsection \<open>Construction\<close>

text \<open>
  One round of the loop of \<^verbatim>\<open>_initialize_network\<close>, for the layer transition \<open>i\<close>.
  The loop runs only after the count check, over \<open>i < length layer_sizes - 1\<close>, so
  the three list reads are in range.
\<close>

definition initialize_layer ::
  "int list \<Rightarrow> nat \<Rightarrow> MLPBinaryClassifier \<Rightarrow> rng \<Rightarrow> error + (MLPBinaryClassifier \<times> rng)" where
  "initialize_layer layer_sizes i m g =
     (case np_randn (layer_sizes ! i) (layer_sizes ! (i + 1)) g of
        Inl e \<Rightarrow> Inl e
      | Inr (R, g') \<Rightarrow>
         (let m1 = m\<lparr>weights := weights m @ [map_array (\<lambda>x. x * (1 / 100)) R]\<rparr>;
              m2 = m1\<lparr>biases := biases m1 @ [zeros 1 (nat (layer_sizes ! (i + 1)))]\<rparr>
          in case ACTIVATIONS (activations m2 ! i) of
               None \<Rightarrow> Inl (KeyError (activations m2 ! i))
             | Some (activation_fn, activation_deriv) \<Rightarrow>
                 Inr (m2\<lparr>activation_funcs := activation_funcs m2 @ [activation_fn],
                         activation_derivatives :=
                           activation_derivatives m2 @ [activation_deriv]\<rparr>, g')))"

fun initialize_loop ::
  "nat list \<Rightarrow> int list \<Rightarrow> MLPBinaryClassifier \<Rightarrow> rng \<Rightarrow> error + (MLPBinaryClassifier \<times> rng)" where
  "initialize_loop [] layer_sizes m g = Inr (m, g)"
| "initialize_loop (i # rest) layer_sizes m g =
     (case initialize_layer layer_sizes i m g of
        Inl e \<Rightarrow> Inl e
      | Inr (m', g') \<Rightarrow> initialize_loop rest layer_sizes m' g')"

definition initialize_network ::
  "MLPBinaryClassifier \<Rightarrow> rng \<Rightarrow> error + (MLPBinaryClassifier \<times> rng)" where
  "initialize_network m g =
     (let layer_sizes = [input_size m] @ hidden_layers m @ [1]
      in if length (activations m) \<noteq> length layer_sizes - 1
         then Inl (ValueError ''# activation functions != # layers'')
         else initialize_loop [0..<length layer_sizes - 1] layer_sizes m g)"

text \<open>
  The constructor \<^verbatim>\<open>__init__\<close>. \<open>None\<close> is an absent \<^verbatim>\<open>dropout_rates\<close> argument;
  an empty list is as false as \<^verbatim>\<open>None\<close> for Python's \<^verbatim>\<open>if\<close>. A constructor that
  raises leaves no object behind, so an error carries no state.
\<close>

definition init ::
  "int \<Rightarrow> int list \<Rightarrow> string list \<Rightarrow> real list option \<Rightarrow> real \<Rightarrow> int \<Rightarrow> real \<Rightarrow> rng
     \<Rightarrow> error + (MLPBinaryClassifier \<times> rng)" where
  "init isz hidden acts rates lr ep l2 g =
     initialize_network
       \<lparr>input_size = isz, hidden_layers = hidden, activations = acts,
        learning_rate = lr, epochs = ep, l2_lambda = l2,
        dropout_rates =
          (case rates of
             None \<Rightarrow> replicate (length hidden) 0
           | Some rs \<Rightarrow> if rs = [] then replicate (length hidden) 0 else rs),
        weights = [], biases = [], activation_funcs = [], activation_derivatives = [],
        train_losses = [], val_losses = []\<rparr> g"

subsection \<open>The forward pass\<close>

text \<open>
  Dropout on the activation \<open>A\<close> of layer \<open>i\<close> (lines 78 to 88). The mask has the
  shape of \<open>A\<close>; \<^verbatim>\<open>A *= mask\<close> and \<^verbatim>\<open>A /= (1 - rate)\<close> work in place on the
  array the activation function has just returned.
\<close>

definition dropout ::
  "MLPBinaryClassifier \<Rightarrow> bool \<Rightarrow> nat \<Rightarrow> farray \<Rightarrow> rng \<Rightarrow> error + (farray \<times> farray option \<times> rng)" where
  "dropout m training i A g =
     (if training \<and> i < length (dropout_rates m) then
        (let rate = dropout_rates m ! i in
         if rate > 0 then
           (let (R, g') = np_rand (nrows A) (ncols A) g;
                dmask = map_array (\<lambda>u. if u > rate then 1 else 0) R
            in case inplace2 (*) A dmask of
                 Inl e \<Rightarrow> Inl e
               | Inr A1 \<Rightarrow> Inr (map_array (\<lambda>x. x / (1 - rate)) A1, Some dmask, g'))
         else Inr (A, None, g))
      else Inr (A, None, g))"

definition forward_layer ::
  "MLPBinaryClassifier \<Rightarrow> bool \<Rightarrow> nat \<Rightarrow> farray \<Rightarrow> rng \<Rightarrow> error + (farray \<times> farray option \<times> rng)" where
  "forward_layer m training i A g =
     (case py_get (weights m) i of
        Inl e \<Rightarrow> Inl e
      | Inr W \<Rightarrow>
     (case dot A W of
        Inl e \<Rightarrow> Inl e
      | Inr P \<Rightarrow>
     (case py_get (biases m) i of
        Inl e \<Rightarrow> Inl e
      | Inr b \<Rightarrow>
     (case broadcast2 (+) P b of
        Inl e \<Rightarrow> Inl e
      | Inr Z \<Rightarrow>
     (case py_get (activation_funcs m) i of
        Inl e \<Rightarrow> Inl e
      | Inr f \<Rightarrow> dropout m training i (f Z) g)))))"

fun forward_loop ::
  "nat list \<Rightarrow> MLPBinaryClassifier \<Rightarrow> bool \<Rightarrow> farray \<Rightarrow> farray list \<Rightarrow> farray option list \<Rightarrow> rng
     \<Rightarrow> error + (farray list \<times> farray option list \<times> rng)" where
  "forward_loop [] m training A acts masks g = Inr (acts, masks, g)"
| "forward_loop (i # rest) m training A acts masks g =
     (case forward_layer m training i A g of
        Inl e \<Rightarrow> Inl e
      | Inr (A', dmask, g') \<Rightarrow>
          forward_loop rest m training A' (acts @ [A']) (masks @ [dmask]) g')"

definition forward ::
  "MLPBinaryClassifier \<Rightarrow> farray \<Rightarrow> bool \<Rightarrow> rng
     \<Rightarrow> error + (farray list \<times> farray option list \<times> rng)" where
  "forward m X training g = forward_loop [0..<length (weights m)] m training X [X] [] g"

subsection \<open>The backward pass\<close>

text \<open>The step from the delta of layer \<open>i\<close> to that of layer \<open>i - 1\<close> (lines 105 to 107).\<close>

definition backward_delta ::
  "MLPBinaryClassifier \<Rightarrow> farray list \<Rightarrow> farray option list \<Rightarrow> nat \<Rightarrow> farray \<Rightarrow> error + farray" where
  "backward_delta m acts masks i delta =
     (case py_get (weights m) i of
        Inl e \<Rightarrow> Inl e
      | Inr W \<Rightarrow>
     (case dot delta (np_T W) of
        Inl e \<Rightarrow> Inl e
      | Inr P \<Rightarrow>
     (case py_get (activation_derivatives m) (i - 1) of
        Inl e \<Rightarrow> Inl e
      | Inr d \<Rightarrow>
     (case py_get acts i of
        Inl e \<Rightarrow> Inl e
      | Inr a \<Rightarrow>
     (case broadcast2 (*) P (d a) of
        Inl e \<Rightarrow> Inl e
      | Inr delta' \<Rightarrow>
     (case py_get masks (i - 1) of
        Inl e \<Rightarrow> Inl e
      | Inr None \<Rightarrow> Inr delta'
      | Inr (Some dmask) \<Rightarrow> inplace2 (*) delta' dmask))))))"

fun backward_loop ::
  "nat list \<Rightarrow> MLPBinaryClassifier \<Rightarrow> farray list \<Rightarrow> farray option list \<Rightarrow> farray
     \<Rightarrow> farray list \<Rightarrow> farray list \<Rightarrow> error + (farray list \<times> farray list)" where
  "backward_loop [] m acts masks delta grads_w grads_b = Inr (grads_w, grads_b)"
| "backward_loop (i # rest) m acts masks delta grads_w grads_b =
     (case py_get acts i of
        Inl e \<Rightarrow> Inl e
      | Inr a \<Rightarrow>
     (case dot (np_T a) delta of
        Inl e \<Rightarrow> Inl e
      | Inr G \<Rightarrow>
          if i > 0 then
            (case backward_delta m acts masks i delta of
               Inl e \<Rightarrow> Inl e
             | Inr delta' \<Rightarrow>
                 backward_loop rest m acts masks delta' (G # grads_w) (sum_axis0 delta # grads_b))
          else backward_loop rest m acts masks delta (G # grads_w) (sum_axis0 delta # grads_b)))"

definition backward ::
  "MLPBinaryClassifier \<Rightarrow> farray list \<Rightarrow> farray \<Rightarrow> farray option list
     \<Rightarrow> error + (farray list \<times> farray list)" where
  "backward m acts y masks =
     (case py_last acts of
        Inl e \<Rightarrow> Inl e
      | Inr a \<Rightarrow>
     (case binary_cross_entropyDerivative y a of
        Inl e \<Rightarrow> Inl e
      | Inr D \<Rightarrow>
     (case py_last (activation_derivatives m) of
        Inl e \<Rightarrow> Inl e
      | Inr d \<Rightarrow>
     (case broadcast2 (*) D (d a) of
        Inl e \<Rightarrow> Inl e
      | Inr delta \<Rightarrow>
          backward_loop (rev [0..<length (weights m)]) m acts masks delta [] []))))"

subsection \<open>The update\<close>

text \<open>
  \<^verbatim>\<open>update_weights\<close> changes the arrays of the model in place, one layer after the
  other, so an error in layer \<open>i\<close> leaves the layers before it updated: an error comes
  with the state of the model at the moment it is raised.
\<close>

definition update_layer ::
  "MLPBinaryClassifier \<Rightarrow> farray list \<Rightarrow> farray list \<Rightarrow> nat
     \<Rightarrow> (error \<times> MLPBinaryClassifier) + MLPBinaryClassifier" where
  "update_layer m grads_w grads_b i =
     (case py_get (weights m) i of
        Inl e \<Rightarrow> Inl (e, m)
      | Inr W \<Rightarrow>
     (case py_get grads_w i of
        Inl e \<Rightarrow> Inl (e, m)
      | Inr gw \<Rightarrow>
     (case inplace2 (-) W (map_array (\<lambda>x. learning_rate m * x) gw) of
        Inl e \<Rightarrow> Inl (e, m)
      | Inr W' \<Rightarrow>
         (let m1 = m\<lparr>weights := (weights m)[i := W']\<rparr> in
          case py_get (biases m1) i of
            Inl e \<Rightarrow> Inl (e, m1)
          | Inr b \<Rightarrow>
         (case py_get grads_b i of
            Inl e \<Rightarrow> Inl (e, m1)
          | Inr gb \<Rightarrow>
         (case inplace2 (-) b (map_array (\<lambda>x. learning_rate m1 * x) gb) of
            Inl e \<Rightarrow> Inl (e, m1)
          | Inr b' \<Rightarrow> Inr (m1\<lparr>biases := (biases m1)[i := b']\<rparr>)))))))"

fun update_loop ::
  "nat list \<Rightarrow> MLPBinaryClassifier \<Rightarrow> farray list \<Rightarrow> farray list
     \<Rightarrow> (error \<times> MLPBinaryClassifier) + MLPBinaryClassifier" where
  "update_loop [] m grads_w grads_b = Inr m"
| "update_loop (i # rest) m grads_w grads_b =
     (case update_layer m grads_w grads_b i of
        Inl em \<Rightarrow> Inl em
      | Inr m' \<Rightarrow> update_loop rest m' grads_w grads_b)"

definition update_weights ::
  "MLPBinaryClassifier \<Rightarrow> farray list \<Rightarrow> farray list
     \<Rightarrow> (error \<times> MLPBinaryClassifier) + MLPBinaryClassifier" where
  "update_weights m grads_w grads_b = update_loop [0..<length (weights m)] m grads_w grads_b"

subsection \<open>Training\<close>

text \<open>
  The validation step of an epoch (lines 126 to 129). It runs when both \<^verbatim>\<open>X_val\<close>
  and \<^verbatim>\<open>y_val\<close> are given, and binds the local variable \<^verbatim>\<open>val_loss\<close>, which is
  \<open>None\<close> as long as it is unbound.
\<close>

definition validate ::
  "MLPBinaryClassifier \<Rightarrow> farray option \<Rightarrow> farray option \<Rightarrow> rng \<Rightarrow> real option
     \<Rightarrow> (error \<times> MLPBinaryClassifier) + (MLPBinaryClassifier \<times> rng \<times> real option)" where
  "validate m X_val y_val g val_loss =
     (case (X_val, y_val) of
        (Some Xv, Some yv) \<Rightarrow>
          (case forward m Xv False g of
             Inl e \<Rightarrow> Inl (e, m)
           | Inr (acts, masks, g') \<Rightarrow>
          (case py_last acts of
             Inl e \<Rightarrow> Inl (e, m)
           | Inr val_preds \<Rightarrow>
          (case binary_cross_entropy yv val_preds of
             Inl e \<Rightarrow> Inl (e, m)
           | Inr l \<Rightarrow>
              (let v = l + l2_penalty (weights m) (l2_lambda m)
               in Inr (m\<lparr>val_losses := val_losses m @ [v]\<rparr>, g', Some v)))))
      | _ \<Rightarrow> Inr (m, g, val_loss))"

text \<open>
  The report of every hundredth epoch (lines 131 to 135). What it prints is left out;
  that it reads \<^verbatim>\<open>val_loss\<close> whenever \<^verbatim>\<open>X_val\<close> is given is kept, since reading
  an unbound local variable raises.
\<close>

definition report ::
  "MLPBinaryClassifier \<Rightarrow> farray \<Rightarrow> farray \<Rightarrow> farray option \<Rightarrow> nat \<Rightarrow> real option
     \<Rightarrow> error option" where
  "report m y a X_val epoch val_loss =
     (if epoch mod 100 = 0 then
        (case binary_cross_entropy y a of
           Inl e \<Rightarrow> Some e
         | Inr l \<Rightarrow>
             if X_val \<noteq> None then
               (case val_loss of
                  None \<Rightarrow> Some (NameError ''val_loss'')
                | Some v \<Rightarrow> None)
             else None)
      else None)"

definition train_epoch ::
  "farray \<Rightarrow> farray \<Rightarrow> farray option \<Rightarrow> farray option \<Rightarrow> nat
     \<Rightarrow> MLPBinaryClassifier \<Rightarrow> rng \<Rightarrow> real option
     \<Rightarrow> (error \<times> MLPBinaryClassifier) + (MLPBinaryClassifier \<times> rng \<times> real option)" where
  "train_epoch X y X_val y_val epoch m g val_loss =
     (case forward m X True g of
        Inl e \<Rightarrow> Inl (e, m)
      | Inr (acts, masks, g1) \<Rightarrow>
     (case backward m acts y masks of
        Inl e \<Rightarrow> Inl (e, m)
      | Inr (grads_w, grads_b) \<Rightarrow>
     (case update_weights m grads_w grads_b of
        Inl em \<Rightarrow> Inl em
      | Inr m1 \<Rightarrow>
     (case py_last acts of
        Inl e \<Rightarrow> Inl (e, m1)
      | Inr a \<Rightarrow>
     (case binary_cross_entropy y a of
        Inl e \<Rightarrow> Inl (e, m1)
      | Inr l \<Rightarrow>
         (let train_loss = l + l2_penalty (weights m1) (l2_lambda m1);
              m2 = m1\<lparr>train_losses := train_losses m1 @ [train_loss]\<rparr>
          in case validate m2 X_val y_val g1 val_loss of
               Inl em \<Rightarrow> Inl em
             | Inr (m3, g2, val_loss') \<Rightarrow>
                 (case report m3 y a X_val epoch val_loss' of
                    Some e \<Rightarrow> Inl (e, m3)
                  | None \<Rightarrow> Inr (m3, g2, val_loss'))))))))"

fun train_loop ::
  "nat list \<Rightarrow> farray \<Rightarrow> farray \<Rightarrow> farray option \<Rightarrow> farray option
     \<Rightarrow> MLPBinaryClassifier \<Rightarrow> rng \<Rightarrow> real option
     \<Rightarrow> (error \<times> MLPBinaryClassifier) + (MLPBinaryClassifier \<times> rng)" where
  "train_loop [] X y X_val y_val m g val_loss = Inr (m, g)"
| "train_loop (epoch # rest) X y X_val y_val m g val_loss =
     (case train_epoch X y X_val y_val epoch m g val_loss of
        Inl em \<Rightarrow> Inl em
      | Inr (m', g', val_loss') \<Rightarrow> train_loop rest X y X_val y_val m' g' val_loss')"

definition train ::
  "MLPBinaryClassifier \<Rightarrow> farray \<Rightarrow> farray \<Rightarrow> farray option \<Rightarrow> farray option \<Rightarrow> rng
     \<Rightarrow> (error \<times> MLPBinaryClassifier) + (MLPBinaryClassifier \<times> rng)" where
  "train m X y X_val y_val g =
     train_loop [0..<nat (epochs m)] X y X_val y_val m g None"

subsection \<open>Inference\<close>

definition predict :: "MLPBinaryClassifier \<Rightarrow> farray \<Rightarrow> rng \<Rightarrow> error + int ndarray" where
  "predict m X g =
     (case forward m X False g of
        Inl e \<Rightarrow> Inl e
      | Inr (acts, masks, g') \<Rightarrow>
     (case py_last acts of
        Inl e \<Rightarrow> Inl e
      | Inr a \<Rightarrow> Inr (map_array (\<lambda>x. if x > 1 / 2 then 1 else 0) a)))"

section \<open>Well-shaped models\<close>

text \<open>
  The shapes the constructor sets up: a bias row for every weight matrix, as wide as the
  matrix; each weight matrix as high as the one before is wide; one output column; and
  for every layer an activation function of the registry with its derivative.
  \<open>same_layout\<close> relates two states of a model that differ in the values of their
  parameters and in their loss histories only.
\<close>

definition shape :: "'a ndarray \<Rightarrow> nat \<times> nat" where
  "shape A = (nrows A, ncols A)"

definition registered :: "((farray \<Rightarrow> farray) \<times> (farray \<Rightarrow> farray)) set" where
  "registered = {(sigmoid, sigmoidDerivative), (relu, reluDerivative)}"

definition well_shaped :: "MLPBinaryClassifier \<Rightarrow> bool" where
  "well_shaped m \<longleftrightarrow>
     weights m \<noteq> [] \<and> length (biases m) = length (weights m)
     \<and> length (activation_funcs m) = length (weights m)
     \<and> length (activation_derivatives m) = length (weights m)
     \<and> (\<forall>i<length (weights m).
           shape (biases m ! i) = (1, ncols (weights m ! i))
           \<and> (activation_funcs m ! i, activation_derivatives m ! i) \<in> registered
           \<and> (i + 1 < length (weights m) \<longrightarrow>
                nrows (weights m ! (i + 1)) = ncols (weights m ! i)))
     \<and> ncols (last (weights m)) = 1"

definition same_layout :: "MLPBinaryClassifier \<Rightarrow> MLPBinaryClassifier \<Rightarrow> bool" where
  "same_layout m m' \<longleftrightarrow>
     map shape (weights m') = map shape (weights m)
     \<and> map shape (biases m') = map shape (biases m)
     \<and> activation_funcs m' = activation_funcs m
     \<and> activation_derivatives m' = activation_derivatives m
     \<and> dropout_rates m' = dropout_rates m \<and> hidden_layers m' = hidden_layers m
     \<and> learning_rate m' = learning_rate m \<and> epochs m' = epochs m
     \<and> l2_lambda m' = l2_lambda m"

text \<open>
  A batch fits a model when it is as wide as the first weight matrix is high and has one
  label for every example.
\<close>

definition batch_ok :: "MLPBinaryClassifier \<Rightarrow> farray \<Rightarrow> farray \<Rightarrow> bool" where
  "batch_ok m X y \<longleftrightarrow>
     ncols X = nrows (hd (weights m)) \<and> nrows y = nrows X \<and> ncols y = 1"

section \<open>The closed form of the specification\<close>

text \<open>
  The closed form the specification names for logistic regression, in its words:
  \<open>X\<^sup>T (sigmoid (X W + b) - y)\<close>. It is not taken from the source; the
  gradient of \<^verbatim>\<open>backward\<close> is compared with it.
\<close>

definition logistic_gradient :: "farray \<Rightarrow> farray \<Rightarrow> farray \<Rightarrow> farray \<Rightarrow> error + farray" where
  "logistic_gradient X W b y =
     (case dot X W of
        Inl e \<Rightarrow> Inl e
      | Inr P \<Rightarrow>
     (case broadcast2 (+) P b of
        Inl e \<Rightarrow> Inl e
      | Inr Z \<Rightarrow>
     (case broadcast2 (-) (sigmoid Z) y of
        Inl e \<Rightarrow> Inl e
      | Inr R \<Rightarrow> dot (np_T X) R)))"

section \<open>Example objects\<close>

text \<open>
  Concrete inputs on which the theorems below are run: a generator, a batch of one
  example with one feature and its label, the model without hidden layers that the
  constructor builds from that generator, and a model with one hidden layer of two
  units and a dropout rate of one half.
\<close>

definition example_rng :: rng where
  "example_rng = \<lparr>randn_draws = (\<lambda>k. 0), rand_draws = (\<lambda>k. if even k then 3 / 4 else 1 / 4)\<rparr>"

definition example_X :: farray where
  "example_X = NDArray 1 1 (\<lambda>i j. 1)"

definition example_model0 :: MLPBinaryClassifier where
  "example_model0 =
     \<lparr>input_size = 1, hidden_layers = [], activations = [''sigmoid''],
      learning_rate = 1 / 100, epochs = 2, l2_lambda = 1 / 1000, dropout_rates = [],
      weights = [zeros 1 1], biases = [zeros 1 1],
      activation_funcs = [sigmoid], activation_derivatives = [sigmoidDerivative],
      train_losses = [], val_losses = []\<rparr>"

definition example_model1 :: MLPBinaryClassifier where
  "example_model1 =
     \<lparr>input_size = 1, hidden_layers = [2], activations = [''relu'', ''sigmoid''],
      learning_rate = 1 / 100, epochs = 2, l2_lambda = 1 / 1000, dropout_rates = [1 / 2],
      weights = [NDArray 1 2 (\<lambda>i j. 1), NDArray 2 1 (\<lambda>i j. 1)],
      biases = [zeros 1 2, zeros 1 1],
      activation_funcs = [relu, sigmoid],
      activation_derivatives = [reluDerivative, sigmoidDerivative],
      train_losses = [], val_losses = []\<rparr>"

definition example_y :: farray where
  "example_y = NDArray 1 1 (\<lambda>i j. 1)"

section \<open>Properties of the construction\<close>

lemma initialize_layer_activations:
  "initialize_layer ls i m g = Inr (m', g') \<Longrightarrow> activations m' = activations m"
  by (auto simp: initialize_layer_def Let_def split: sum.splits option.splits prod.splits)

lemma initialize_layer_error:
  assumes "0 \<le> ls ! i" "0 \<le> ls ! (i + 1)"
  shows "initialize_layer ls i m g = Inl e \<longleftrightarrow>
           (ACTIVATIONS (activations m ! i) = None \<and> e = KeyError (activations m ! i))"
  using assms
  by (auto simp: initialize_layer_def np_randn_def Let_def split: sum.splits option.splits prod.splits)

lemma initialize_loop_error:
  assumes "\<forall>i\<in>set idxs. 0 \<le> ls ! i \<and> 0 \<le> ls ! (i + 1)"
  shows "(\<exists>e. initialize_loop idxs ls m g = Inl e) \<longleftrightarrow>
           (\<exists>i\<in>set idxs. ACTIVATIONS (activations m ! i) = None)"
    and "initialize_loop idxs ls m g = Inl e \<Longrightarrow>
           \<exists>i\<in>set idxs. ACTIVATIONS (activations m ! i) = None \<and> e = KeyError (activations m ! i)"
  using assms
proof (induction idxs arbitrary: m g)
  case Nil
  { case 1 show ?case by simp }
  { case 2 then show ?case by simp }
next
  case (Cons i rest)
  { case 1
    show ?case
    proof (cases "initialize_layer ls i m g")
      case (Inl e')
      then show ?thesis using initialize_layer_error[of ls i m g e'] 1 by auto
    next
      case (Inr p)
      obtain m' g' where p: "p = (m', g')" by (cases p)
      have a: "activations m' = activations m"
        using Inr p initialize_layer_activations by blast
      have n: "ACTIVATIONS (activations m ! i) \<noteq> None"
        using Inr initialize_layer_error[of ls i m g "KeyError (activations m ! i)"] 1 by auto
      show ?thesis using Inr p a n Cons.IH(1)[of m' g'] 1 by auto
    qed }
  { case 2
    show ?case
    proof (cases "initialize_layer ls i m g")
      case (Inl e')
      then show ?thesis using initialize_layer_error[of ls i m g e'] 2 by auto
    next
      case (Inr p)
      obtain m' g' where p: "p = (m', g')" by (cases p)
      have a: "activations m' = activations m"
        using Inr p initialize_layer_activations by blast
      show ?thesis using Inr p a Cons.IH(2)[of m' g'] 2 by auto
    qed }
qed


lemma layer_sizes_nth_nonneg:
  assumes "0 \<le> isz" and "\<forall>h\<in>set hidden. 0 \<le> h" and "i < length hidden + 2"
  shows "0 \<le> ([isz] @ hidden @ [1::int]) ! i"
proof -
  have "\<forall>x\<in>set ([isz] @ hidden @ [1::int]). 0 \<le> x" using assms by auto
  moreover have "i < length ([isz] @ hidden @ [1::int])" using assms by simp
  ultimately show ?thesis using nth_mem by blast
qed

text \<open>
  Claim C8. Given an input size and hidden layer sizes that are not negative, the
  constructor raises exactly when the number of activation names differs from the number
  of hidden layers plus one, or when one of the names is not a key of the registry. In
  the first case the error is the \<^verbatim>\<open>ValueError\<close> of the count check; in the second
  it is a \<^verbatim>\<open>KeyError\<close> that carries an unregistered name of the list. An error
  carries no model. The registry holds \<^verbatim>\<open>sigmoid\<close> and \<^verbatim>\<open>relu\<close>.
\<close>

theorem construction_fails_iff:
  assumes "0 \<le> isz" and "\<forall>h\<in>set hidden. 0 \<le> h"
  shows "((\<exists>e. init isz hidden acts dr lr ep l2 g = Inl e) \<longleftrightarrow>
            (length acts \<noteq> length hidden + 1 \<or> (\<exists>a\<in>set acts. ACTIVATIONS a = None)))
       \<and> (length acts \<noteq> length hidden + 1 \<longrightarrow>
            init isz hidden acts dr lr ep l2 g =
              Inl (ValueError ''# activation functions != # layers''))
       \<and> (length acts = length hidden + 1 \<longrightarrow>
            (\<forall>e. init isz hidden acts dr lr ep l2 g = Inl e \<longrightarrow>
               (\<exists>a\<in>set acts. ACTIVATIONS a = None \<and> e = KeyError a)))
       \<and> ACTIVATIONS ''sigmoid'' \<noteq> None \<and> ACTIVATIONS ''relu'' \<noteq> None"
proof -
  let ?ls = "[isz] @ hidden @ [1::int]"
  let ?m0 = "\<lparr>input_size = isz, hidden_layers = hidden, activations = acts,
        learning_rate = lr, epochs = ep, l2_lambda = l2,
        dropout_rates =
          (case dr of
             None \<Rightarrow> replicate (length hidden) 0
           | Some rs \<Rightarrow> if rs = [] then replicate (length hidden) 0 else rs),
        weights = [], biases = [], activation_funcs = [], activation_derivatives = [],
        train_losses = [], val_losses = []\<rparr>"
  have reg: "ACTIVATIONS ''sigmoid'' \<noteq> None \<and> ACTIVATIONS ''relu'' \<noteq> None"
    by (simp add: ACTIVATIONS_def)
  have mismatch: "init isz hidden acts dr lr ep l2 g =
              Inl (ValueError ''# activation functions != # layers'')"
    if "length acts \<noteq> length hidden + 1"
    using that by (simp add: init_def initialize_network_def)
  have idx: "\<forall>i\<in>set [0..<length hidden + 1]. 0 \<le> ?ls ! i \<and> 0 \<le> ?ls ! (i + 1)"
  proof (intro ballI conjI)
    fix i assume "i \<in> set [0..<length hidden + 1]"
    then have b: "i < length hidden + 2" "i + 1 < length hidden + 2" by auto
    show "0 \<le> ?ls ! i" by (rule layer_sizes_nth_nonneg[OF assms b(1)])
    show "0 \<le> ?ls ! (i + 1)" by (rule layer_sizes_nth_nonneg[OF assms b(2)])
  qed
  have run: "init isz hidden acts dr lr ep l2 g =
               initialize_loop [0..<length hidden + 1] ?ls ?m0 g"
    if "length acts = length hidden + 1"
    using that by (simp add: init_def initialize_network_def)
  have names: "(\<exists>i\<in>set [0..<length hidden + 1]. ACTIVATIONS (acts ! i) = None)
                 \<longleftrightarrow> (\<exists>a\<in>set acts. ACTIVATIONS a = None)"
    if "length acts = length hidden + 1"
    unfolding that[symmetric] set_upt by (metis atLeastLessThan_iff in_set_conv_nth le0)
  have match_iff: "(\<exists>e. init isz hidden acts dr lr ep l2 g = Inl e) \<longleftrightarrow>
                     (\<exists>a\<in>set acts. ACTIVATIONS a = None)"
    if len: "length acts = length hidden + 1"
    using initialize_loop_error(1)[OF idx, of ?m0 g] names[OF len] run[OF len]
    by (simp del: upt_Suc)
  have match_err: "\<exists>a\<in>set acts. ACTIVATIONS a = None \<and> e = KeyError a"
    if len: "length acts = length hidden + 1"
      and e: "init isz hidden acts dr lr ep l2 g = Inl e" for e
  proof -
    have "initialize_loop [0..<length hidden + 1] ?ls ?m0 g = Inl e"
      using e run[OF len] by (simp del: upt_Suc)
    from initialize_loop_error(2)[OF idx this]
    have "\<exists>i\<in>set [0..<length hidden + 1]. ACTIVATIONS (acts ! i) = None \<and> e = KeyError (acts ! i)"
      by (simp del: upt_Suc)
    then obtain i where i: "i \<in> set [0..<length hidden + 1]"
      and n: "ACTIVATIONS (acts ! i) = None" and k: "e = KeyError (acts ! i)"
      by blast
    have "i < length acts" using i len by auto
    then have "acts ! i \<in> set acts" by simp
    then show ?thesis using n k by blast
  qed
  show ?thesis
    using reg mismatch match_iff match_err by blast
qed

theorem construction_fails_iff_witness:
  "init 2 [3] [''relu'', ''tanh''] None (1 / 100) 10 (1 / 1000) example_rng = Inl (KeyError ''tanh'')
   \<and> (\<exists>m g. init 2 [3] [''relu'', ''sigmoid''] None (1 / 100) 10 (1 / 1000) example_rng = Inr (m, g))
   \<and> init 2 [3] [''relu''] None (1 / 100) 10 (1 / 1000) example_rng =
       Inl (ValueError ''# activation functions != # layers'')"
proof -
  have h: "(0::int) \<le> 2" "\<forall>h\<in>set [3::int]. 0 \<le> h" by simp_all
  have a: "ACTIVATIONS ''tanh'' = None" "ACTIVATIONS ''relu'' \<noteq> None" "ACTIVATIONS ''sigmoid'' \<noteq> None"
    by (simp_all add: ACTIVATIONS_def)
  have 1: "init 2 [3] [''relu'', ''tanh''] None (1 / 100) 10 (1 / 1000) example_rng = Inl (KeyError ''tanh'')"
    using construction_fails_iff[OF h, of "[''relu'', ''tanh'']" None "1 / 100" 10 "1 / 1000" example_rng] a
    by auto
  have 2: "\<exists>m g. init 2 [3] [''relu'', ''sigmoid''] None (1 / 100) 10 (1 / 1000) example_rng = Inr (m, g)"
    using construction_fails_iff[OF h, of "[''relu'', ''sigmoid'']" None "1 / 100" 10 "1 / 1000" example_rng] a
    by (cases "init 2 [3] [''relu'', ''sigmoid''] None (1 / 100) 10 (1 / 1000) example_rng") auto
  have 3: "init 2 [3] [''relu''] None (1 / 100) 10 (1 / 1000) example_rng =
       Inl (ValueError ''# activation functions != # layers'')"
    using construction_fails_iff[OF h, of "[''relu'']" None "1 / 100" 10 "1 / 1000" example_rng]
    by simp
  show ?thesis using 1 2 3 by blast
qed

section \<open>Properties of the forward pass\<close>

subsection \<open>Arrays, the generator and the loop\<close>

lemma bidx_lt: "i < n \<Longrightarrow> bidx n i = i"
  by (auto simp: bidx_def)

lemma bdim_same: "bdim a a = Some a"
  by (simp add: bdim_def)

lemma inplace2_same_shape:
  assumes "nrows B = nrows A" and "ncols B = ncols A"
  shows "inplace2 f A B =
           Inr (NDArray (nrows A) (ncols A)
                  (\<lambda>i j. f (cell A (bidx (nrows A) i) (bidx (ncols A) j))
                           (cell B (bidx (nrows A) i) (bidx (ncols A) j))))"
  using assms by (simp add: inplace2_def broadcast2_def bdim_same)

lemma inplace2_shape:
  "inplace2 f A B = Inr C \<Longrightarrow> nrows C = nrows A \<and> ncols C = ncols A"
  by (auto simp: inplace2_def split: sum.splits if_splits)


lemma skip_rand_0: "skip_rand 0 g = g"
  by (simp add: skip_rand_def)

lemma skip_rand_add: "skip_rand a (skip_rand b g) = skip_rand (a + b) g"
  by (simp add: skip_rand_def add.assoc)

lemma np_rand_skip: "snd (np_rand r c g) = skip_rand (r * c) g"
  by (simp add: np_rand_def skip_rand_def)

lemma dropout_no_mask:
  assumes "\<not> (training \<and> i < length (dropout_rates m) \<and> dropout_rates m ! i > 0)"
  shows "dropout m training i A g = Inr (A, None, g)"
  using assms by (auto simp: dropout_def Let_def)

lemma dropout_mask:
  assumes "training" and "i < length (dropout_rates m)" and "dropout_rates m ! i > 0"
  shows "dropout m training i A g =
           Inr (NDArray (nrows A) (ncols A)
                  (\<lambda>r c. cell A (bidx (nrows A) r) (bidx (ncols A) c) *
                         (if rand_draws g (bidx (nrows A) r * ncols A + bidx (ncols A) c)
                               > dropout_rates m ! i then 1 else 0) /
                         (1 - dropout_rates m ! i)),
                Some (NDArray (nrows A) (ncols A)
                  (\<lambda>r c. if rand_draws g (r * ncols A + c) > dropout_rates m ! i then 1 else 0)),
                skip_rand (nrows A * ncols A) g)"
  using assms
  by (simp add: dropout_def Let_def np_rand_def map_array_def skip_rand_def
      inplace2_same_shape)

lemma forward_loop_snoc:
  "forward_loop (idxs @ [i]) m training A acts masks g =
     (case forward_loop idxs m training A acts masks g of
        Inl e \<Rightarrow> Inl e
      | Inr (acts', masks', g') \<Rightarrow>
          (case forward_layer m training i (if idxs = [] then A else last acts') g' of
             Inl e \<Rightarrow> Inl e
           | Inr (A', dmask, g'') \<Rightarrow> Inr (acts' @ [A'], masks' @ [dmask], g'')))"
proof (induction idxs arbitrary: A acts masks g)
  case Nil
  show ?case by (simp split: sum.splits prod.splits)
next
  case (Cons k rest)
  show ?case
  proof (cases "forward_layer m training k A g")
    case (Inl e)
    then show ?thesis by simp
  next
    case (Inr p)
    obtain A1 mk g1 where p: "p = (A1, mk, g1)" by (cases p)
    have step: "forward_loop (rest @ [i]) m training A1 (acts @ [A1]) (masks @ [mk]) g1 =
      (case forward_loop rest m training A1 (acts @ [A1]) (masks @ [mk]) g1 of
        Inl e \<Rightarrow> Inl e
      | Inr (acts', masks', g') \<Rightarrow>
          (case forward_layer m training i (if rest = [] then A1 else last acts') g' of
             Inl e \<Rightarrow> Inl e
           | Inr (A', dmask, g'') \<Rightarrow> Inr (acts' @ [A'], masks' @ [dmask], g'')))"
      by (rule Cons.IH)
    show ?thesis
    proof (cases rest)
      case Nil
      then show ?thesis using Inr p by (simp split: sum.splits prod.splits)
    next
      case (Cons k' rest')
      then show ?thesis using Inr p step by (simp split: sum.splits prod.splits)
    qed
  qed
qed


lemma dropout_rng:
  "dropout m training i A g = Inr (A', mk, g') \<Longrightarrow> \<exists>n. g' = skip_rand n g"
proof (cases "training \<and> i < length (dropout_rates m) \<and> dropout_rates m ! i > 0")
  case True
  assume "dropout m training i A g = Inr (A', mk, g')"
  then have "g' = skip_rand (nrows A * ncols A) g"
    using True dropout_mask[of training i m A g] by simp
  then show ?thesis by blast
next
  case False
  assume "dropout m training i A g = Inr (A', mk, g')"
  then have "g' = skip_rand 0 g"
    using dropout_no_mask[OF False, of A g] by (simp add: skip_rand_0)
  then show ?thesis by blast
qed

lemma forward_layer_Inr:
  assumes "forward_layer m training i A g = Inr (A', mk, g')"
  shows "\<exists>P Z. i < length (weights m) \<and> i < length (biases m) \<and> i < length (activation_funcs m)
           \<and> dot A (weights m ! i) = Inr P \<and> broadcast2 (+) P (biases m ! i) = Inr Z
           \<and> dropout m training i ((activation_funcs m ! i) Z) g = Inr (A', mk, g')"
  using assms
  by (auto simp: forward_layer_def py_get_def split: sum.splits if_splits)

lemma forward_layer_rng:
  "forward_layer m training i A g = Inr (A', mk, g') \<Longrightarrow> \<exists>n. g' = skip_rand n g"
  using forward_layer_Inr dropout_rng by blast

lemma forward_upto:
  "forward_loop [0..<n] m training X [X] [] g = Inr (acts, masks, g') \<Longrightarrow>
     length acts = n + 1 \<and> length masks = n \<and> acts ! 0 = X \<and> (\<exists>off. g' = skip_rand off g) \<and>
     (\<forall>i<n. \<exists>off g2. forward_layer m training i (acts ! i) (skip_rand off g)
                         = Inr (acts ! (i + 1), masks ! i, g2))"
proof (induction n arbitrary: acts masks g')
  case 0
  then have "acts = [X]" "masks = []" "g' = skip_rand 0 g" by (simp_all add: skip_rand_0)
  then show ?case by auto
next
  case (Suc n)
  have up: "[0..<Suc n] = [0..<n] @ [n]" by simp
  from Suc.prems obtain acts0 masks0 g0 A1 mk where
    inner: "forward_loop [0..<n] m training X [X] [] g = Inr (acts0, masks0, g0)" and
    layer: "forward_layer m training n (if [0..<n] = [] then X else last acts0) g0 = Inr (A1, mk, g')" and
    res: "acts = acts0 @ [A1]" "masks = masks0 @ [mk]"
    unfolding up forward_loop_snoc by (auto split: sum.splits prod.splits)
  note ih = Suc.IH[OF inner]
  have len0: "length acts0 = n + 1" "length masks0 = n" "acts0 ! 0 = X" using ih by auto
  obtain off0 where off0: "g0 = skip_rand off0 g" using ih by blast
  have cur: "(if [0..<n] = [] then X else last acts0) = acts0 ! n"
  proof (cases n)
    case 0
    then show ?thesis using len0 by simp
  next
    case (Suc k)
    have "acts0 \<noteq> []" using len0 by auto
    then have "last acts0 = acts0 ! n" using len0 by (simp add: last_conv_nth)
    then show ?thesis using Suc by simp
  qed
  have layer': "forward_layer m training n (acts ! n) (skip_rand off0 g) = Inr (acts ! (n + 1), masks ! n, g')"
    using layer cur res len0 off0 by (simp add: nth_append)
  obtain k where "g' = skip_rand k g0" using forward_layer_rng[OF layer] by blast
  then have g': "g' = skip_rand (k + off0) g" using off0 by (simp add: skip_rand_add)
  have layers: "\<exists>off g2. forward_layer m training i (acts ! i) (skip_rand off g)
                         = Inr (acts ! (i + 1), masks ! i, g2)" if "i < Suc n" for i
  proof (cases "i < n")
    case True
    then obtain off g2 where "forward_layer m training i (acts0 ! i) (skip_rand off g)
                         = Inr (acts0 ! (i + 1), masks0 ! i, g2)" using ih by blast
    then have "forward_layer m training i (acts ! i) (skip_rand off g)
                         = Inr (acts ! (i + 1), masks ! i, g2)"
      using True res len0 by (simp add: nth_append)
    then show ?thesis by blast
  next
    case False
    then have "i = n" using that by simp
    then show ?thesis using layer' by blast
  qed
  show ?case using res len0 g' layers by (auto simp: nth_append)
qed

lemma forward_Inr:
  assumes "forward m X training g = Inr (acts, masks, g')"
  shows "length acts = length (weights m) + 1" and "length masks = length (weights m)"
    and "acts ! 0 = X" and "\<exists>off. g' = skip_rand off g"
    and "i < length (weights m) \<Longrightarrow>
           \<exists>off g2. forward_layer m training i (acts ! i) (skip_rand off g)
                         = Inr (acts ! (i + 1), masks ! i, g2)"
  using forward_upto[of "length (weights m)" m training X g acts masks g'] assms
  unfolding forward_def by blast+


subsection \<open>One layer, with and without a mask\<close>

lemma skip_rand_draws: "rand_draws (skip_rand n g) k = rand_draws g (k + n)"
  by (simp add: skip_rand_def)

lemma forward_layer_False:
  assumes "forward_layer m training i A g = Inr (A', mk, g')"
  shows "\<exists>B. \<forall>h. forward_layer m False i A h = Inr (B, None, h)"
proof -
  from forward_layer_Inr[OF assms] obtain P Z where
    *: "i < length (weights m)" "i < length (biases m)" "i < length (activation_funcs m)"
       "dot A (weights m ! i) = Inr P" "broadcast2 (+) P (biases m ! i) = Inr Z"
    by blast
  have "forward_layer m False i A h = Inr ((activation_funcs m ! i) Z, None, h)" for h
    using * by (simp add: forward_layer_def py_get_def dropout_no_mask)
  then show ?thesis by blast
qed

lemma forward_layer_no_mask:
  assumes "forward_layer m training i A g = Inr (A', mk, g')"
    and "\<not> (training \<and> i < length (dropout_rates m) \<and> dropout_rates m ! i > 0)"
  shows "mk = None \<and> g' = g \<and> forward_layer m False i A h = Inr (A', None, h)"
proof -
  from forward_layer_Inr[OF assms(1)] obtain P Z where
    *: "i < length (weights m)" "i < length (biases m)" "i < length (activation_funcs m)"
       "dot A (weights m ! i) = Inr P" "broadcast2 (+) P (biases m ! i) = Inr Z"
       "dropout m training i ((activation_funcs m ! i) Z) g = Inr (A', mk, g')"
    by blast
  have d: "A' = (activation_funcs m ! i) Z" "mk = None" "g' = g"
    using *(6) dropout_no_mask[OF assms(2)] by simp_all
  have "forward_layer m False i A h = Inr ((activation_funcs m ! i) Z, None, h)"
    using * by (simp add: forward_layer_def py_get_def dropout_no_mask)
  then show ?thesis using d by simp
qed

lemma forward_layer_with_mask:
  assumes "forward_layer m training i A g = Inr (A', mk, g')"
    and "training" and "i < length (dropout_rates m)" and "dropout_rates m ! i > 0"
  shows "\<exists>B M. (\<forall>h. forward_layer m False i A h = Inr (B, None, h))
           \<and> mk = Some M \<and> nrows M = nrows B \<and> ncols M = ncols B
           \<and> nrows A' = nrows B \<and> ncols A' = ncols B
           \<and> (\<forall>r<nrows B. \<forall>c<ncols B.
                 cell M r c = (if rand_draws g (r * ncols B + c) > dropout_rates m ! i then 1 else 0)
               \<and> cell A' r c = cell B r c * cell M r c / (1 - dropout_rates m ! i))"
proof -
  from forward_layer_Inr[OF assms(1)] obtain P Z where
    *: "i < length (weights m)" "i < length (biases m)" "i < length (activation_funcs m)"
       "dot A (weights m ! i) = Inr P" "broadcast2 (+) P (biases m ! i) = Inr Z"
       "dropout m training i ((activation_funcs m ! i) Z) g = Inr (A', mk, g')"
    by blast
  let ?B = "(activation_funcs m ! i) Z"
  have f: "forward_layer m False i A h = Inr (?B, None, h)" for h
    using * by (simp add: forward_layer_def py_get_def dropout_no_mask)
  have d: "A' = NDArray (nrows ?B) (ncols ?B)
                  (\<lambda>r c. cell ?B (bidx (nrows ?B) r) (bidx (ncols ?B) c) *
                         (if rand_draws g (bidx (nrows ?B) r * ncols ?B + bidx (ncols ?B) c)
                               > dropout_rates m ! i then 1 else 0) /
                         (1 - dropout_rates m ! i))"
     "mk = Some (NDArray (nrows ?B) (ncols ?B)
                  (\<lambda>r c. if rand_draws g (r * ncols ?B + c) > dropout_rates m ! i then 1 else 0))"
    using *(6) dropout_mask[OF assms(2,3,4), of ?B g] by simp_all
  show ?thesis
    using f d by (auto simp: bidx_lt)
qed

subsection \<open>The cache and the masks\<close>

lemmas example_eval =
  forward_def forward_layer_def dropout_def py_get_def dot_def broadcast2_def bdim_def
  bidx_def zeros_def sigmoid_def relu_def map_array_def np_rand_def inplace2_def Let_def
  example_model0_def example_model1_def example_X_def example_rng_def

lemma example_forward1_returns:
  "\<exists>acts masks g. forward example_model1 example_X True example_rng = Inr (acts, masks, g)"
  by (simp add: example_eval)

text \<open>
  Claim C5, as the code has it. When \<^verbatim>\<open>forward\<close> returns, in either mode, the mask
  sequence has one entry for every weight matrix, the output layer included: its length
  is the number of hidden layers plus one for a model with one weight matrix per layer
  transition. Every entry is either no mask or an array of zeros and ones with the shape
  of the activation it belongs to. The activation cache has one entry more than there
  are weight matrices; the input is at index 0 and the output of the last layer is last.
\<close>

theorem forward_cache_lengths:
  assumes "forward m X training g = Inr (acts, masks, g')"
  shows "length masks = length (weights m) \<and> length acts = length (weights m) + 1
       \<and> acts ! 0 = X \<and> last acts = acts ! length (weights m)
       \<and> (\<forall>i<length masks. masks ! i = None \<or>
            (\<exists>M. masks ! i = Some M \<and> nrows M = nrows (acts ! (i + 1))
                  \<and> ncols M = ncols (acts ! (i + 1))
                  \<and> (\<forall>r<nrows M. \<forall>c<ncols M. cell M r c = 0 \<or> cell M r c = 1)))
       \<and> (length (weights m) = length (hidden_layers m) + 1 \<longrightarrow>
            length masks = length (hidden_layers m) + 1
            \<and> length acts = length (hidden_layers m) + 2)"
proof -
  note fw = forward_Inr[OF assms]
  have len: "length masks = length (weights m)" "length acts = length (weights m) + 1"
    and first: "acts ! 0 = X"
    using fw(1,2,3) by simp_all
  have "acts \<noteq> []" using len by auto
  then have lst: "last acts = acts ! length (weights m)"
    using len by (simp add: last_conv_nth)
  have entry: "masks ! i = None \<or>
            (\<exists>M. masks ! i = Some M \<and> nrows M = nrows (acts ! (i + 1))
                  \<and> ncols M = ncols (acts ! (i + 1))
                  \<and> (\<forall>r<nrows M. \<forall>c<ncols M. cell M r c = 0 \<or> cell M r c = 1))"
    if "i < length masks" for i
  proof -
    have "i < length (weights m)" using that len by simp
    from fw(5)[OF this] obtain off g2 where
      l: "forward_layer m training i (acts ! i) (skip_rand off g)
            = Inr (acts ! (i + 1), masks ! i, g2)" by blast
    show ?thesis
    proof (cases "training \<and> i < length (dropout_rates m) \<and> dropout_rates m ! i > 0")
      case True
      then have t: "training" "i < length (dropout_rates m)" "dropout_rates m ! i > 0"
        by simp_all
      from forward_layer_with_mask[OF l t] obtain B M where
        "masks ! i = Some M" "nrows M = nrows B" "ncols M = ncols B"
        "nrows (acts ! (i + 1)) = nrows B" "ncols (acts ! (i + 1)) = ncols B"
        "\<forall>r<nrows B. \<forall>c<ncols B.
           cell M r c = (if rand_draws (skip_rand off g) (r * ncols B + c) > dropout_rates m ! i
                         then 1 else 0)
           \<and> cell (acts ! (i + 1)) r c = cell B r c * cell M r c / (1 - dropout_rates m ! i)"
        by blast
      then show ?thesis by auto
    next
      case False
      then show ?thesis using forward_layer_no_mask[OF l False] by simp
    qed
  qed
  show ?thesis using len first lst entry by simp
qed

theorem forward_cache_lengths_witness:
  "\<exists>acts masks g. forward example_model1 example_X True example_rng = Inr (acts, masks, g)
     \<and> length masks = 2 \<and> length acts = 3 \<and> acts ! 0 = example_X"
proof -
  obtain acts masks g where
    ev: "forward example_model1 example_X True example_rng = Inr (acts, masks, g)"
    using example_forward1_returns by blast
  have "length (weights example_model1) = 2" by (simp add: example_model1_def)
  then have "length masks = 2 \<and> length acts = 3 \<and> acts ! 0 = example_X"
    using forward_cache_lengths[OF ev] by simp
  then show ?thesis using ev by blast
qed

lemma example_init0:
  "init 1 [] [''sigmoid''] None (1 / 100) 2 (1 / 1000) example_rng = Inr (example_model0, example_rng)"
  by (simp add: init_def initialize_network_def initialize_layer_def np_randn_def ACTIVATIONS_def
     map_array_def example_rng_def example_model0_def zeros_def Let_def)

theorem forward_masks_length_counterexample:
  "init 1 [] [''sigmoid''] None (1 / 100) 2 (1 / 1000) example_rng = Inr (example_model0, example_rng)
   \<and> forward example_model0 example_X False example_rng =
       Inr ([example_X, NDArray 1 1 (\<lambda>i j. 1 / 2)], [None], example_rng)
   \<and> length [None :: farray option] \<noteq> length (hidden_layers example_model0)"
proof -
  have "forward example_model0 example_X False example_rng =
       Inr ([example_X, NDArray 1 1 (\<lambda>i j. 1 / 2)], [None], example_rng)"
    by (simp add: example_eval)
  moreover have "hidden_layers example_model0 = []" by (simp add: example_model0_def)
  ultimately show ?thesis using example_init0 by simp
qed

lemma initialize_layer_dropout_rates:
  "initialize_layer ls i (m\<lparr>dropout_rates := rs\<rparr>) g =
     (case initialize_layer ls i m g of
        Inl e \<Rightarrow> Inl e
      | Inr (m', g') \<Rightarrow> Inr (m'\<lparr>dropout_rates := rs\<rparr>, g'))"
  by (simp add: initialize_layer_def Let_def split: sum.splits option.splits prod.splits)

lemma initialize_loop_dropout_rates:
  "initialize_loop idxs ls (m\<lparr>dropout_rates := rs\<rparr>) g =
     (case initialize_loop idxs ls m g of
        Inl e \<Rightarrow> Inl e
      | Inr (m', g') \<Rightarrow> Inr (m'\<lparr>dropout_rates := rs\<rparr>, g'))"
proof (induction idxs arbitrary: m g)
  case Nil
  show ?case by simp
next
  case (Cons i rest)
  show ?case
    by (simp add: initialize_layer_dropout_rates Cons.IH split: sum.splits prod.splits)
qed

lemma init_dropout_rates:
  "init isz hidden anames dr lr ep l2 g =
     (case init isz hidden anames None lr ep l2 g of
        Inl e \<Rightarrow> Inl e
      | Inr (m, g') \<Rightarrow>
          Inr (m\<lparr>dropout_rates :=
                   (case dr of None \<Rightarrow> replicate (length hidden) 0
                    | Some rs \<Rightarrow> if rs = [] then replicate (length hidden) 0 else rs)\<rparr>, g'))"
proof -
  let ?rs = "case dr of None \<Rightarrow> replicate (length hidden) 0
                    | Some rs \<Rightarrow> if rs = [] then replicate (length hidden) 0 else rs"
  let ?m0 = "\<lparr>input_size = isz, hidden_layers = hidden, activations = anames,
        learning_rate = lr, epochs = ep, l2_lambda = l2,
        dropout_rates = replicate (length hidden) 0,
        weights = [], biases = [], activation_funcs = [], activation_derivatives = [],
        train_losses = [], val_losses = []\<rparr>"
  have a: "init isz hidden anames dr lr ep l2 g = initialize_network (?m0\<lparr>dropout_rates := ?rs\<rparr>) g"
    by (simp add: init_def)
  have b: "init isz hidden anames None lr ep l2 g = initialize_network ?m0 g"
    by (simp add: init_def)
  have c: "initialize_network (?m0\<lparr>dropout_rates := ?rs\<rparr>) g =
     (case initialize_network ?m0 g of
        Inl e \<Rightarrow> Inl e
      | Inr (m, g') \<Rightarrow> Inr (m\<lparr>dropout_rates := ?rs\<rparr>, g'))"
    unfolding initialize_network_def Let_def
    using initialize_loop_dropout_rates[where m = ?m0 and rs = ?rs and g = g]
    by (simp del: upt_Suc)
  show ?thesis unfolding a b c ..
qed

lemma initialize_layer_keeps_rates:
  "initialize_layer ls i m g = Inr (m', g') \<Longrightarrow> dropout_rates m' = dropout_rates m"
  by (auto simp: initialize_layer_def Let_def split: sum.splits option.splits prod.splits)

lemma initialize_loop_keeps_rates:
  "initialize_loop idxs ls m g = Inr (m', g') \<Longrightarrow> dropout_rates m' = dropout_rates m"
proof (induction idxs arbitrary: m g)
  case Nil
  then show ?case by simp
next
  case (Cons i rest)
  then show ?case
    by (auto split: sum.splits prod.splits dest: initialize_layer_keeps_rates)
qed

lemma init_rates:
  assumes "init isz hidden anames dr lr ep l2 g = Inr (m, g')"
  shows "dropout_rates m = (case dr of None \<Rightarrow> replicate (length hidden) 0
                    | Some rs \<Rightarrow> if rs = [] then replicate (length hidden) 0 else rs)"
  using assms initialize_loop_keeps_rates
  by (fastforce simp: init_def initialize_network_def Let_def split: if_splits)

lemma forward_mask_iff:
  assumes "forward m X training g = Inr (acts, masks, g')" and "i < length (weights m)"
  shows "masks ! i \<noteq> None \<longleftrightarrow> training \<and> i < length (dropout_rates m) \<and> dropout_rates m ! i > 0"
proof -
  from forward_Inr(5)[OF assms] obtain off g2 where
    l: "forward_layer m training i (acts ! i) (skip_rand off g)
            = Inr (acts ! (i + 1), masks ! i, g2)" by blast
  show ?thesis
  proof (cases "training \<and> i < length (dropout_rates m) \<and> dropout_rates m ! i > 0")
    case True
    then have t: "training" "i < length (dropout_rates m)" "dropout_rates m ! i > 0"
      by simp_all
    from forward_layer_with_mask[OF l t] show ?thesis using True by auto
  next
    case False
    then show ?thesis using forward_layer_no_mask[OF l False] by simp
  qed
qed

text \<open>
  Claim C10. Whether the constructor raises does not depend on the
  \<^verbatim>\<open>dropout_rates\<close> argument; an empty list gives the same result as no argument,
  which is a rate of 0 for every hidden layer; a list that is not empty is stored as it
  is, whatever its length. In a forward pass in
  training mode a mask is recorded for layer \<open>i\<close> exactly when \<open>i\<close> is an index of
  the stored rates and the rate there is positive, so a list with one positive rate per
  weight matrix puts dropout on the output layer.
\<close>

theorem dropout_rates_accepted:
  "(isl (init isz hidden anames dr lr ep l2 g0) \<longleftrightarrow> isl (init isz hidden anames dr' lr ep l2 g0))
   \<and> init isz hidden anames (Some []) lr ep l2 g0 = init isz hidden anames None lr ep l2 g0
   \<and> (init isz hidden anames (Some rs) lr ep l2 g0 = Inr (m0, g1) \<and> rs \<noteq> []
        \<longrightarrow> dropout_rates m0 = rs)
   \<and> (init isz hidden anames None lr ep l2 g0 = Inr (m1, g2)
        \<longrightarrow> dropout_rates m1 = replicate (length hidden) 0)
   \<and> (forward m X True g = Inr (acts, masks, g') \<longrightarrow>
        (\<forall>i<length (weights m).
           masks ! i \<noteq> None \<longleftrightarrow> i < length (dropout_rates m) \<and> dropout_rates m ! i > 0))
   \<and> (forward m X True g = Inr (acts, masks, g') \<and> weights m \<noteq> []
        \<and> length (dropout_rates m) = length (weights m) \<and> last (dropout_rates m) > 0
        \<longrightarrow> last masks \<noteq> None)"
proof -
  have 1: "isl (init isz hidden anames dr lr ep l2 g0) \<longleftrightarrow> isl (init isz hidden anames dr' lr ep l2 g0)"
    by (subst init_dropout_rates, subst (2) init_dropout_rates)
       (simp split: sum.splits prod.splits)
  have 2: "init isz hidden anames (Some []) lr ep l2 g0 = init isz hidden anames None lr ep l2 g0"
    by (simp add: init_def)
  have 3: "dropout_rates m0 = rs"
    if "init isz hidden anames (Some rs) lr ep l2 g0 = Inr (m0, g1)" "rs \<noteq> []"
    using init_rates[OF that(1)] that(2) by simp
  have 6: "dropout_rates m1 = replicate (length hidden) 0"
    if "init isz hidden anames None lr ep l2 g0 = Inr (m1, g2)"
    using init_rates[OF that] by simp
  have 4: "masks ! i \<noteq> None \<longleftrightarrow> i < length (dropout_rates m) \<and> dropout_rates m ! i > 0"
    if "forward m X True g = Inr (acts, masks, g')" "i < length (weights m)" for i
    using forward_mask_iff[OF that] by simp
  have 5: "last masks \<noteq> None"
    if fw: "forward m X True g = Inr (acts, masks, g')" and ne: "weights m \<noteq> []"
      and len: "length (dropout_rates m) = length (weights m)" and pos: "last (dropout_rates m) > 0"
  proof -
    let ?k = "length (weights m) - 1"
    have k: "?k < length (weights m)" using ne by simp
    have lm: "length masks = length (weights m)" using forward_Inr(2)[OF fw] .
    have "masks \<noteq> []" "dropout_rates m \<noteq> []" using lm len ne by auto
    then have "last masks = masks ! ?k" "last (dropout_rates m) = dropout_rates m ! ?k"
      using lm len by (simp_all add: last_conv_nth)
    then show ?thesis using forward_mask_iff[OF fw k] len k pos by simp
  qed
  show ?thesis using 1 2 3 4 5 6 by blast
qed

theorem dropout_rates_accepted_witness:
  "init 1 [] [''sigmoid''] (Some [1 / 2]) (1 / 100) 2 (1 / 1000) example_rng =
     Inr (example_model0\<lparr>dropout_rates := [1 / 2]\<rparr>, example_rng)
   \<and> (\<exists>acts masks g. forward (example_model0\<lparr>dropout_rates := [1 / 2]\<rparr>) example_X True example_rng
          = Inr (acts, masks, g) \<and> last masks \<noteq> None)"
proof -
  let ?m = "example_model0\<lparr>dropout_rates := [1 / 2]\<rparr>"
  have i: "init 1 [] [''sigmoid''] (Some [1 / 2]) (1 / 100) 2 (1 / 1000) example_rng =
     Inr (?m, example_rng)"
    by (simp add: init_def initialize_network_def initialize_layer_def np_randn_def ACTIVATIONS_def
     map_array_def example_rng_def example_model0_def zeros_def Let_def)
  obtain acts masks g where
    ev: "forward ?m example_X True example_rng = Inr (acts, masks, g)"
    by (simp add: example_eval)
  have h: "weights ?m \<noteq> []" "length (dropout_rates ?m) = length (weights ?m)"
    "last (dropout_rates ?m) > 0"
    by (simp_all add: example_model0_def)
  have "last masks \<noteq> None"
    using dropout_rates_accepted[where m = ?m and X = example_X and g = example_rng
        and acts = acts and masks = masks and g' = g] ev h
    by blast
  then show ?thesis using i ev by blast
qed

subsection \<open>Dropout\<close>

text \<open>
  Claim C4, as the code has it. Let \<^verbatim>\<open>forward\<close> return. In training mode, every
  layer \<open>i\<close> that has a rate \<open>r\<close> with \<open>0 < r < 1\<close> gets inverted dropout: with
  \<open>B\<close> the activation of the layer on its cached input, the recorded mask has the shape
  of \<open>B\<close>, every cell of it is decided by a draw of its own (the cell is 1 exactly
  when the draw exceeds \<open>r\<close>), and the cached activation is 0 where the mask is 0 and
  \<open>B / (1 - r)\<close> elsewhere. The last layer gets no dropout when the pass is not in
  training mode, or when there are fewer rates than weight matrices.
\<close>

theorem forward_inverted_dropout:
  assumes fw: "forward m X training g = Inr (acts, masks, g')"
  shows "(\<forall>i<length (weights m).
            training \<and> i < length (dropout_rates m)
              \<and> 0 < dropout_rates m ! i \<and> dropout_rates m ! i < 1 \<longrightarrow>
            (\<exists>B M off.
               (\<forall>h. forward_layer m False i (acts ! i) h = Inr (B, None, h))
               \<and> masks ! i = Some M \<and> nrows M = nrows B \<and> ncols M = ncols B
               \<and> nrows (acts ! (i + 1)) = nrows B \<and> ncols (acts ! (i + 1)) = ncols B
               \<and> (\<forall>r<nrows B. \<forall>c<ncols B.
                     cell M r c =
                       (if rand_draws g (off + (r * ncols B + c)) > dropout_rates m ! i
                        then 1 else 0)
                   \<and> cell (acts ! (i + 1)) r c =
                       (if cell M r c = 0 then 0
                        else cell B r c / (1 - dropout_rates m ! i)))))
       \<and> (weights m \<noteq> []
            \<and> (\<not> training \<or> length (dropout_rates m) < length (weights m)) \<longrightarrow>
            last masks = None
            \<and> (\<forall>h. forward_layer m False (length (weights m) - 1)
                       (acts ! (length (weights m) - 1)) h = Inr (last acts, None, h)))"
proof -
  have hidden: "\<exists>B M off.
               (\<forall>h. forward_layer m False i (acts ! i) h = Inr (B, None, h))
               \<and> masks ! i = Some M \<and> nrows M = nrows B \<and> ncols M = ncols B
               \<and> nrows (acts ! (i + 1)) = nrows B \<and> ncols (acts ! (i + 1)) = ncols B
               \<and> (\<forall>r<nrows B. \<forall>c<ncols B.
                     cell M r c =
                       (if rand_draws g (off + (r * ncols B + c)) > dropout_rates m ! i
                        then 1 else 0)
                   \<and> cell (acts ! (i + 1)) r c =
                       (if cell M r c = 0 then 0
                        else cell B r c / (1 - dropout_rates m ! i)))"
    if i: "i < length (weights m)"
    and c: "training \<and> i < length (dropout_rates m)
              \<and> 0 < dropout_rates m ! i \<and> dropout_rates m ! i < 1" for i
  proof -
  from forward_Inr(5)[OF fw i] obtain off g2 where
    l: "forward_layer m training i (acts ! i) (skip_rand off g)
            = Inr (acts ! (i + 1), masks ! i, g2)" by blast
  have t: "training" "i < length (dropout_rates m)" "dropout_rates m ! i > 0"
    using c by simp_all
  from forward_layer_with_mask[OF l t] obtain B M where
    f: "\<forall>h. forward_layer m False i (acts ! i) h = Inr (B, None, h)" and
    s: "masks ! i = Some M" "nrows M = nrows B" "ncols M = ncols B"
       "nrows (acts ! (i + 1)) = nrows B" "ncols (acts ! (i + 1)) = ncols B" and
    e: "\<forall>r<nrows B. \<forall>c<ncols B.
           cell M r c = (if rand_draws (skip_rand off g) (r * ncols B + c) > dropout_rates m ! i
                         then 1 else 0)
           \<and> cell (acts ! (i + 1)) r c = cell B r c * cell M r c / (1 - dropout_rates m ! i)"
    by blast
  have e': "\<forall>r<nrows B. \<forall>c<ncols B.
                     cell M r c =
                       (if rand_draws g (off + (r * ncols B + c)) > dropout_rates m ! i
                        then 1 else 0)
                   \<and> cell (acts ! (i + 1)) r c =
                       (if cell M r c = 0 then 0
                        else cell B r c / (1 - dropout_rates m ! i))"
    using e by (simp add: skip_rand_draws add.commute)
  show ?thesis
    using f s e' by blast
  qed
  have outl: "last masks = None
            \<and> (\<forall>h. forward_layer m False (length (weights m) - 1)
                       (acts ! (length (weights m) - 1)) h = Inr (last acts, None, h))"
    if a: "weights m \<noteq> []
            \<and> (\<not> training \<or> length (dropout_rates m) < length (weights m))"
  proof -
  let ?k = "length (weights m) - 1"
  have k: "?k < length (weights m)" using a by simp
  have len: "length masks = length (weights m)" "length acts = length (weights m) + 1"
    using forward_Inr(1,2)[OF fw] by simp_all
  have "masks \<noteq> []" "acts \<noteq> []" using len a by auto
  then have lst: "last masks = masks ! ?k" "last acts = acts ! (?k + 1)"
    using len a by (simp_all add: last_conv_nth)
  from forward_Inr(5)[OF fw k] obtain off g2 where
    l: "forward_layer m training ?k (acts ! ?k) (skip_rand off g)
            = Inr (acts ! (?k + 1), masks ! ?k, g2)" by blast
  have no: "\<not> (training \<and> ?k < length (dropout_rates m) \<and> dropout_rates m ! ?k > 0)"
    using a by auto
  show ?thesis
    using forward_layer_no_mask[OF l no] lst by simp
  qed
  show ?thesis using hidden outl by blast
qed

theorem forward_inverted_dropout_witness:
  "\<exists>acts masks g. forward example_model1 example_X True example_rng = Inr (acts, masks, g)
     \<and> (\<exists>M. masks ! 0 = Some M \<and> nrows M = nrows (acts ! 1) \<and> ncols M = ncols (acts ! 1))
     \<and> last masks = None"
proof -
  obtain acts masks g where
    ev: "forward example_model1 example_X True example_rng = Inr (acts, masks, g)"
    using example_forward1_returns by blast
  have h: "(0::nat) < length (weights example_model1)"
    "0 < length (dropout_rates example_model1)"
    "0 < dropout_rates example_model1 ! 0" "dropout_rates example_model1 ! 0 < 1"
    "weights example_model1 \<noteq> []"
    "length (dropout_rates example_model1) < length (weights example_model1)"
    by (simp_all add: example_model1_def)
  have "(\<exists>M. masks ! 0 = Some M \<and> nrows M = nrows (acts ! 1) \<and> ncols M = ncols (acts ! 1))
     \<and> last masks = None"
    using forward_inverted_dropout[OF ev] h by fastforce
  then show ?thesis using ev by blast
qed

theorem output_layer_dropout_counterexample:
  "init 1 [] [''sigmoid''] (Some [1 / 2]) (1 / 100) 2 (1 / 1000) example_rng =
     Inr (example_model0\<lparr>dropout_rates := [1 / 2]\<rparr>, example_rng)
   \<and> hidden_layers (example_model0\<lparr>dropout_rates := [1 / 2]\<rparr>) = []
   \<and> (case forward (example_model0\<lparr>dropout_rates := [1 / 2]\<rparr>) example_X True example_rng of
         Inl e \<Rightarrow> False
       | Inr (acts, masks, g) \<Rightarrow>
           (case last masks of None \<Rightarrow> False | Some M \<Rightarrow> cell M 0 0 = 1)
           \<and> cell (last acts) 0 0 = 1)
   \<and> (case forward (example_model0\<lparr>dropout_rates := [1 / 2]\<rparr>) example_X False example_rng of
         Inl e \<Rightarrow> False
       | Inr (acts, masks, g) \<Rightarrow> last masks = None \<and> cell (last acts) 0 0 = 1 / 2)"
  by (simp add: init_def initialize_network_def initialize_layer_def np_randn_def ACTIVATIONS_def
        example_eval)

lemma dropout_zero_rates:
  assumes "\<forall>r\<in>set (dropout_rates m). r \<le> 0"
  shows "dropout m training i A g = Inr (A, None, g)"
proof (rule dropout_no_mask)
  show "\<not> (training \<and> i < length (dropout_rates m) \<and> 0 < dropout_rates m ! i)"
    using assms nth_mem[of i "dropout_rates m"] by fastforce
qed

lemma forward_layer_zero_rates:
  assumes "weights m1 = weights m2" and "biases m1 = biases m2"
    and "activation_funcs m1 = activation_funcs m2"
    and "\<forall>r\<in>set (dropout_rates m1). r \<le> 0" and "\<forall>r\<in>set (dropout_rates m2). r \<le> 0"
  shows "forward_layer m1 training i A g = forward_layer m2 training i A g"
  unfolding forward_layer_def assms(1,2,3)
  by (simp add: dropout_zero_rates[OF assms(4)] dropout_zero_rates[OF assms(5)]
        cong: sum.case_cong)

lemma forward_loop_zero_rates:
  assumes "weights m1 = weights m2" and "biases m1 = biases m2"
    and "activation_funcs m1 = activation_funcs m2"
    and "\<forall>r\<in>set (dropout_rates m1). r \<le> 0" and "\<forall>r\<in>set (dropout_rates m2). r \<le> 0"
  shows "forward_loop idxs m1 training A acts masks g = forward_loop idxs m2 training A acts masks g"
proof (induction idxs arbitrary: A acts masks g)
  case Nil
  show ?case by simp
next
  case (Cons i rest)
  show ?case
    by (simp add: forward_layer_zero_rates[OF assms] Cons.IH split: sum.splits prod.splits)
qed

text \<open>
  Claim C9. The constructor builds the same model from a rate of 0 for every hidden
  layer as from no \<^verbatim>\<open>dropout_rates\<close> argument. More generally two models with
  the same weights, biases and activation functions, one with all its rates 0 and the
  other with the default rates of an absent argument, give the same result of
  \<^verbatim>\<open>forward\<close> on every batch, in training mode and out of it: the same cache, the
  same masks and the same generator state.
\<close>

theorem zero_dropout_same_as_none:
  "init isz hidden anames (Some (replicate (length hidden) 0)) lr ep l2 g0 =
     init isz hidden anames None lr ep l2 g0
   \<and> (weights m1 = weights m2 \<and> biases m1 = biases m2
        \<and> activation_funcs m1 = activation_funcs m2
        \<and> (\<forall>r\<in>set (dropout_rates m1). r = 0)
        \<and> dropout_rates m2 = replicate (length (hidden_layers m2)) 0
      \<longrightarrow> forward m1 X training g = forward m2 X training g)"
proof -
  have c: "init isz hidden anames (Some (replicate (length hidden) 0)) lr ep l2 g0 =
     init isz hidden anames None lr ep l2 g0"
    by (simp add: init_def)
  have f: "forward m1 X training g = forward m2 X training g"
    if w: "weights m1 = weights m2" and b: "biases m1 = biases m2"
      and a: "activation_funcs m1 = activation_funcs m2"
      and z1: "\<forall>r\<in>set (dropout_rates m1). r = 0"
      and z2: "dropout_rates m2 = replicate (length (hidden_layers m2)) 0"
  proof -
    have r1: "\<forall>r\<in>set (dropout_rates m1). r \<le> 0" using z1 by auto
    have r2: "\<forall>r\<in>set (dropout_rates m2). r \<le> 0" using z2 by auto
    show ?thesis
      unfolding forward_def using forward_loop_zero_rates[OF w b a r1 r2] w by simp
  qed
  show ?thesis using c f by blast
qed

theorem zero_dropout_same_as_none_witness:
  "forward (example_model1\<lparr>dropout_rates := [0, 0]\<rparr>) example_X True example_rng =
     forward (example_model1\<lparr>dropout_rates := [0]\<rparr>) example_X True example_rng
   \<and> (\<exists>acts masks g. forward (example_model1\<lparr>dropout_rates := [0]\<rparr>) example_X True example_rng
         = Inr (acts, masks, g))"
proof -
  let ?m1 = "example_model1\<lparr>dropout_rates := [0, 0]\<rparr>"
  let ?m2 = "example_model1\<lparr>dropout_rates := [0]\<rparr>"
  have h: "weights ?m1 = weights ?m2" "biases ?m1 = biases ?m2"
    "activation_funcs ?m1 = activation_funcs ?m2"
    "\<forall>r\<in>set (dropout_rates ?m1). r = 0"
    "dropout_rates ?m2 = replicate (length (hidden_layers ?m2)) 0"
    by (simp_all add: example_model1_def)
  have "forward ?m1 example_X True example_rng = forward ?m2 example_X True example_rng"
    using zero_dropout_same_as_none[of _ _ _ _ _ _ _ ?m1 ?m2 example_X True example_rng] h
    by blast
  moreover have "\<exists>acts masks g. forward ?m2 example_X True example_rng = Inr (acts, masks, g)"
    by (simp add: example_eval)
  ultimately show ?thesis by blast
qed

section \<open>Shapes\<close>

lemma ACTIVATIONS_registered: "ACTIVATIONS name = Some p \<Longrightarrow> p \<in> registered"
  by (auto simp: ACTIVATIONS_def registered_def split: if_splits)

lemma registered_shape:
  assumes "(f, d) \<in> registered"
  shows "nrows (f A) = nrows A" "ncols (f A) = ncols A"
    "nrows (d A) = nrows A" "ncols (d A) = ncols A"
proof -
  have "(f = sigmoid \<and> d = sigmoidDerivative) \<or> (f = relu \<and> d = reluDerivative)"
    using assms unfolding registered_def by blast
  then show "nrows (f A) = nrows A" "ncols (f A) = ncols A"
    "nrows (d A) = nrows A" "ncols (d A) = ncols A"
    by (auto simp: sigmoid_def relu_def sigmoidDerivative_def reluDerivative_def map_array_def)
qed

lemma dropout_shape:
  assumes "dropout m training i A g = Inr (A', mk, g')"
  shows "nrows A' = nrows A \<and> ncols A' = ncols A"
proof (cases "training \<and> i < length (dropout_rates m) \<and> dropout_rates m ! i > 0")
  case True
  then show ?thesis using assms dropout_mask[of training i m A g] by auto
next
  case False
  then show ?thesis using assms dropout_no_mask[OF False, of A g] by simp
qed

lemma dropout_returns: "\<exists>A' mk g'. dropout m training i A g = Inr (A', mk, g')"
proof (cases "training \<and> i < length (dropout_rates m) \<and> dropout_rates m ! i > 0")
  case True
  then show ?thesis using dropout_mask[of training i m A g] by simp
next
  case False
  then show ?thesis using dropout_no_mask[OF False, of A g] by simp
qed

lemma broadcast_bias:
  assumes "nrows b = 1" and "ncols b = ncols P"
  shows "\<exists>Z. broadcast2 f P b = Inr Z \<and> nrows Z = nrows P \<and> ncols Z = ncols P"
  using assms by (auto simp: broadcast2_def bdim_def)

lemma forward_layer_shape:
  assumes ws: "well_shaped m" and i: "i < length (weights m)"
    and l: "forward_layer m training i A g = Inr (A', mk, g')"
  shows "nrows A' = nrows A \<and> ncols A' = ncols (weights m ! i)"
proof -
  from forward_layer_Inr[OF l] obtain P Z where
    *: "dot A (weights m ! i) = Inr P" "broadcast2 (+) P (biases m ! i) = Inr Z"
       "dropout m training i ((activation_funcs m ! i) Z) g = Inr (A', mk, g')"
    by blast
  have b: "nrows (biases m ! i) = 1" "ncols (biases m ! i) = ncols (weights m ! i)"
    and r: "(activation_funcs m ! i, activation_derivatives m ! i) \<in> registered"
    using ws i by (auto simp: well_shaped_def shape_def)
  have P: "nrows P = nrows A" "ncols P = ncols (weights m ! i)"
    using *(1) by (auto simp: dot_def split: if_splits)
  from broadcast_bias[of "biases m ! i" P "(+)"] b P *(2)
  have Z: "nrows Z = nrows A" "ncols Z = ncols (weights m ! i)" by auto
  show ?thesis
    using dropout_shape[OF *(3)] registered_shape(1,2)[OF r] Z by simp
qed

lemma forward_layer_returns:
  assumes ws: "well_shaped m" and i: "i < length (weights m)"
    and c: "ncols A = nrows (weights m ! i)"
  shows "\<exists>A' mk g'. forward_layer m training i A g = Inr (A', mk, g')"
proof -
  have b: "nrows (biases m ! i) = 1" "ncols (biases m ! i) = ncols (weights m ! i)"
    and len: "i < length (biases m)" "i < length (activation_funcs m)"
    using ws i by (auto simp: well_shaped_def shape_def)
  obtain P where P: "dot A (weights m ! i) = Inr P" "ncols P = ncols (weights m ! i)"
    using c by (simp add: dot_def)
  obtain Z where Z: "broadcast2 (+) P (biases m ! i) = Inr Z"
    using broadcast_bias[of "biases m ! i" P "(+)"] b P by auto
  show ?thesis
    using i len P Z dropout_returns[of m training i "(activation_funcs m ! i) Z" g]
    by (simp add: forward_layer_def py_get_def)
qed

lemma forward_upto_shapes:
  assumes ws: "well_shaped m" and n: "n \<le> length (weights m)"
    and fw: "forward_loop [0..<n] m training X [X] [] g = Inr (acts, masks, g')"
  shows "i \<le> n \<Longrightarrow> nrows (acts ! i) = nrows X
           \<and> (0 < i \<longrightarrow> ncols (acts ! i) = ncols (weights m ! (i - 1)))"
proof (induction i)
  case 0
  then show ?case using forward_upto[OF fw] by simp
next
  case (Suc i)
  then have i: "i < n" by simp
  from forward_upto[OF fw] i obtain off g2 where
    l: "forward_layer m training i (acts ! i) (skip_rand off g)
          = Inr (acts ! (i + 1), masks ! i, g2)" by blast
  have "i < length (weights m)" using i n by simp
  from forward_layer_shape[OF ws this l] Suc.IH i show ?case by simp
qed

lemma forward_upto_returns:
  assumes ws: "well_shaped m" and c: "ncols X = nrows (hd (weights m))"
  shows "n \<le> length (weights m) \<Longrightarrow>
           \<exists>acts masks g'. forward_loop [0..<n] m training X [X] [] g = Inr (acts, masks, g')"
proof (induction n)
  case 0
  show ?case by simp
next
  case (Suc n)
  then obtain acts masks g1 where
    fw: "forward_loop [0..<n] m training X [X] [] g = Inr (acts, masks, g1)" by auto
  have n: "n < length (weights m)" "n \<le> length (weights m)" using Suc.prems by simp_all
  have len: "length acts = n + 1" "acts ! 0 = X" using forward_upto[OF fw] by simp_all
  have cur: "(if [0..<n] = [] then X else last acts) = acts ! n"
  proof (cases n)
    case 0
    then show ?thesis using len by simp
  next
    case (Suc k)
    have "acts \<noteq> []" using len by auto
    then have "last acts = acts ! n" using len by (simp add: last_conv_nth)
    then show ?thesis using Suc by simp
  qed
  have cols: "ncols (acts ! n) = nrows (weights m ! n)"
  proof (cases n)
    case 0
    then show ?thesis using len c n by (simp add: hd_conv_nth)
  next
    case (Suc k)
    have "ncols (acts ! n) = ncols (weights m ! (n - 1))"
      using forward_upto_shapes[OF ws n(2) fw, of n] Suc by simp
    moreover have "nrows (weights m ! (k + 1)) = ncols (weights m ! k)"
      using ws n Suc by (simp add: well_shaped_def)
    ultimately show ?thesis using Suc by simp
  qed
  obtain A' mk g2 where
    l: "forward_layer m training n (acts ! n) g1 = Inr (A', mk, g2)"
    using forward_layer_returns[OF ws n(1) cols] by blast
  have up: "[0..<Suc n] = [0..<n] @ [n]" by simp
  have "forward_loop ([0..<n] @ [n]) m training X [X] [] g
          = (case forward_layer m training n (if [0..<n] = [] then X else last acts) g1 of
               Inl e \<Rightarrow> Inl e
             | Inr (A', dmask, g'') \<Rightarrow> Inr (acts @ [A'], masks @ [dmask], g''))"
    by (simp only: forward_loop_snoc fw sum.case prod.case)
  then have "forward_loop ([0..<n] @ [n]) m training X [X] [] g
          = Inr (acts @ [A'], masks @ [mk], g2)"
    by (simp only: cur l sum.case prod.case)
  then show ?case unfolding up by blast
qed

lemma forward_returns:
  assumes "well_shaped m" and "ncols X = nrows (hd (weights m))"
  shows "\<exists>acts masks g'. forward m X training g = Inr (acts, masks, g')"
  unfolding forward_def by (rule forward_upto_returns[OF assms le_refl])

lemma forward_shapes:
  assumes ws: "well_shaped m" and fw: "forward m X training g = Inr (acts, masks, g')"
  shows "nrows (last acts) = nrows X \<and> ncols (last acts) = 1"
proof -
  let ?L = "length (weights m)"
  have L: "0 < ?L" "ncols (last (weights m)) = 1" using ws by (auto simp: well_shaped_def)
  have len: "length acts = ?L + 1" using forward_Inr(1)[OF fw] .
  then have "acts \<noteq> []" by auto
  then have lst: "last acts = acts ! ?L" using len by (simp add: last_conv_nth)
  have lw: "last (weights m) = weights m ! (?L - 1)" using L by (simp add: last_conv_nth)
  have fl: "forward_loop [0..<?L] m training X [X] [] g = Inr (acts, masks, g')"
    using fw unfolding forward_def .
  have "nrows (acts ! ?L) = nrows X
           \<and> (0 < ?L \<longrightarrow> ncols (acts ! ?L) = ncols (weights m ! (?L - 1)))"
    by (rule forward_upto_shapes[OF ws le_refl fl le_refl])
  then show ?thesis using L lst lw by simp
qed

lemma initialize_layer_Inr:
  assumes "initialize_layer ls i m g = Inr (m', g')"
  shows "\<exists>W b f d. weights m' = weights m @ [W] \<and> biases m' = biases m @ [b]
           \<and> activation_funcs m' = activation_funcs m @ [f]
           \<and> activation_derivatives m' = activation_derivatives m @ [d]
           \<and> shape W = (nat (ls ! i), nat (ls ! (i + 1)))
           \<and> shape b = (1, nat (ls ! (i + 1)))
           \<and> (f, d) \<in> registered"
  using assms ACTIVATIONS_registered
  by (auto simp: initialize_layer_def np_randn_def Let_def shape_def map_array_def zeros_def
      split: sum.splits option.splits prod.splits if_splits)

lemma initialize_loop_Inr:
  assumes "initialize_loop idxs ls m g = Inr (m', g')"
  shows "\<exists>Ws bs fs ds. weights m' = weights m @ Ws \<and> biases m' = biases m @ bs
           \<and> activation_funcs m' = activation_funcs m @ fs
           \<and> activation_derivatives m' = activation_derivatives m @ ds
           \<and> list_all2 (\<lambda>i W. shape W = (nat (ls ! i), nat (ls ! (i + 1)))) idxs Ws
           \<and> list_all2 (\<lambda>i b. shape b = (1, nat (ls ! (i + 1)))) idxs bs
           \<and> length fs = length idxs \<and> length ds = length idxs
           \<and> (\<forall>k<length idxs. (fs ! k, ds ! k) \<in> registered)"
  using assms
proof (induction idxs arbitrary: m g)
  case Nil
  then show ?case by simp
next
  case (Cons i rest)
  from Cons.prems obtain m1 g1 where
    l: "initialize_layer ls i m g = Inr (m1, g1)" and
    r: "initialize_loop rest ls m1 g1 = Inr (m', g')"
    by (auto split: sum.splits prod.splits)
  from initialize_layer_Inr[OF l] obtain W b f d where
    1: "weights m1 = weights m @ [W]" "biases m1 = biases m @ [b]"
       "activation_funcs m1 = activation_funcs m @ [f]"
       "activation_derivatives m1 = activation_derivatives m @ [d]"
       "shape W = (nat (ls ! i), nat (ls ! (i + 1)))"
       "shape b = (1, nat (ls ! (i + 1)))" "(f, d) \<in> registered"
    by blast
  from Cons.IH[OF r] obtain Ws bs fs ds where
    2: "weights m' = weights m1 @ Ws" "biases m' = biases m1 @ bs"
       "activation_funcs m' = activation_funcs m1 @ fs"
       "activation_derivatives m' = activation_derivatives m1 @ ds"
       "list_all2 (\<lambda>i W. shape W = (nat (ls ! i), nat (ls ! (i + 1)))) rest Ws"
       "list_all2 (\<lambda>i b. shape b = (1, nat (ls ! (i + 1)))) rest bs"
       "length fs = length rest" "length ds = length rest"
       "\<forall>k<length rest. (fs ! k, ds ! k) \<in> registered"
    by blast
  have reg: "\<forall>k<length (i # rest). ((f # fs) ! k, (d # ds) ! k) \<in> registered"
    using 1(7) 2(9) by (auto simp: nth_Cons split: nat.splits)
  have "weights m' = weights m @ (W # Ws) \<and> biases m' = biases m @ (b # bs)
           \<and> activation_funcs m' = activation_funcs m @ (f # fs)
           \<and> activation_derivatives m' = activation_derivatives m @ (d # ds)
           \<and> list_all2 (\<lambda>i W. shape W = (nat (ls ! i), nat (ls ! (i + 1)))) (i # rest) (W # Ws)
           \<and> list_all2 (\<lambda>i b. shape b = (1, nat (ls ! (i + 1)))) (i # rest) (b # bs)
           \<and> length (f # fs) = length (i # rest) \<and> length (d # ds) = length (i # rest)
           \<and> (\<forall>k<length (i # rest). ((f # fs) ! k, (d # ds) ! k) \<in> registered)"
    using 1 2 reg by simp
  then show ?case by blast
qed

lemma init_well_shaped:
  assumes "init isz hidden anames dr lr ep l2 g = Inr (m, g')"
  shows "well_shaped m" and "length (weights m) = length hidden + 1"
    and "nrows (hd (weights m)) = nat isz"
proof -
  let ?ls = "[isz] @ hidden @ [1::int]"
  let ?L = "length hidden + 1"
  let ?m0 = "\<lparr>input_size = isz, hidden_layers = hidden, activations = anames,
        learning_rate = lr, epochs = ep, l2_lambda = l2,
        dropout_rates =
          (case dr of
             None \<Rightarrow> replicate (length hidden) 0
           | Some rs \<Rightarrow> if rs = [] then replicate (length hidden) 0 else rs),
        weights = [], biases = [], activation_funcs = [], activation_derivatives = [],
        train_losses = [], val_losses = []\<rparr>"
  have run: "initialize_loop [0..<?L] ?ls ?m0 g = Inr (m, g')"
    using assms by (simp add: init_def initialize_network_def Let_def del: upt_Suc split: if_splits)
  from initialize_loop_Inr[OF run] obtain Ws bs fs ds where
    f: "weights m = Ws" "biases m = bs" "activation_funcs m = fs" "activation_derivatives m = ds"
    and W: "list_all2 (\<lambda>i W. shape W = (nat (?ls ! i), nat (?ls ! (i + 1)))) [0..<?L] Ws"
    and B: "list_all2 (\<lambda>i b. shape b = (1, nat (?ls ! (i + 1)))) [0..<?L] bs"
    and len: "length fs = length [0..<?L]" "length ds = length [0..<?L]"
    and reg: "\<forall>k<length [0..<?L]. (fs ! k, ds ! k) \<in> registered"
    by auto
  have lW: "length Ws = ?L" and lB: "length bs = ?L"
    using W B by (auto dest: list_all2_lengthD)
  have sW: "shape (Ws ! i) = (nat (?ls ! i), nat (?ls ! (i + 1)))" if "i < ?L" for i
    using list_all2_nthD2[OF W, of i] that lW by (simp del: upt_Suc)
  have sB: "shape (bs ! i) = (1, nat (?ls ! (i + 1)))" if "i < ?L" for i
    using list_all2_nthD2[OF B, of i] that lB by (simp del: upt_Suc)
  have last_ls: "?ls ! ?L = 1"
    by (simp add: nth_append)
  show len_w: "length (weights m) = length hidden + 1" using f lW by simp
  have ne: "Ws \<noteq> []" using lW by auto
  have "ncols (last Ws) = 1"
    using sW[of "?L - 1"] lW ne last_ls by (simp add: last_conv_nth shape_def)
  moreover have "\<forall>i<?L. shape (bs ! i) = (1, ncols (Ws ! i))
           \<and> (fs ! i, ds ! i) \<in> registered
           \<and> (i + 1 < ?L \<longrightarrow> nrows (Ws ! (i + 1)) = ncols (Ws ! i))"
  proof (intro allI impI conjI)
    fix i assume i: "i < ?L"
    show "shape (bs ! i) = (1, ncols (Ws ! i))" using sW[OF i] sB[OF i] by (simp add: shape_def)
    show "(fs ! i, ds ! i) \<in> registered" using reg i by simp
    assume "i + 1 < ?L"
    then show "nrows (Ws ! (i + 1)) = ncols (Ws ! i)"
      using sW[OF i] sW[of "i + 1"] by (simp add: shape_def)
  qed
  ultimately show "well_shaped m"
    unfolding well_shaped_def f using lW lB len ne by simp
  show "nrows (hd (weights m)) = nat isz"
    using sW[of 0] f ne by (simp add: hd_conv_nth shape_def)
qed

lemma same_layout_refl: "same_layout m m"
  by (simp add: same_layout_def)

lemma same_layout_trans: "same_layout a b \<Longrightarrow> same_layout b c \<Longrightarrow> same_layout a c"
  by (simp add: same_layout_def)

lemma same_layout_nth:
  assumes "same_layout m m'"
  shows "length (weights m') = length (weights m)" "length (biases m') = length (biases m)"
    and "i < length (weights m) \<Longrightarrow> shape (weights m' ! i) = shape (weights m ! i)"
    and "i < length (biases m) \<Longrightarrow> shape (biases m' ! i) = shape (biases m ! i)"
proof -
  have w: "map shape (weights m') = map shape (weights m)"
    and b: "map shape (biases m') = map shape (biases m)"
    using assms by (simp_all add: same_layout_def)
  show lw: "length (weights m') = length (weights m)" using w by (rule map_eq_imp_length_eq)
  show lb: "length (biases m') = length (biases m)" using b by (rule map_eq_imp_length_eq)
  show "shape (weights m' ! i) = shape (weights m ! i)" if "i < length (weights m)"
    using that lw nth_map[of i "weights m'" shape] nth_map[of i "weights m" shape] w by simp
  show "shape (biases m' ! i) = shape (biases m ! i)" if "i < length (biases m)"
    using that lb nth_map[of i "biases m'" shape] nth_map[of i "biases m" shape] b by simp
qed

lemma shape_eq: "shape A = shape B \<longleftrightarrow> nrows A = nrows B \<and> ncols A = ncols B"
  by (simp add: shape_def)

lemma well_shaped_same_layout:
  assumes sl: "same_layout m m'" and ws: "well_shaped m"
  shows "well_shaped m'"
proof -
  note n = same_layout_nth[OF sl]
  have fd: "activation_funcs m' = activation_funcs m"
    "activation_derivatives m' = activation_derivatives m"
    using sl by (simp_all add: same_layout_def)
  have ne: "weights m \<noteq> []" "weights m' \<noteq> []" using ws n(1) by (auto simp: well_shaped_def)
  have lens: "length (biases m) = length (weights m)" using ws by (simp add: well_shaped_def)
  have W: "nrows (weights m' ! i) = nrows (weights m ! i) \<and> ncols (weights m' ! i) = ncols (weights m ! i)"
    if "i < length (weights m)" for i
    using n(3)[OF that] by (simp add: shape_eq)
  have B: "shape (biases m' ! i) = shape (biases m ! i)" if "i < length (weights m)" for i
    using n(4)[of i] that lens by simp
  have lst: "ncols (last (weights m')) = ncols (last (weights m))"
    using W[of "length (weights m) - 1"] ne n(1) by (simp add: last_conv_nth)
  have layers: "shape (biases m' ! i) = (1, ncols (weights m' ! i))
           \<and> (activation_funcs m' ! i, activation_derivatives m' ! i) \<in> registered
           \<and> (i + 1 < length (weights m') \<longrightarrow>
                nrows (weights m' ! (i + 1)) = ncols (weights m' ! i))"
    if i: "i < length (weights m')" for i
  proof -
    have i': "i < length (weights m)" using i n(1) by simp
    have old: "shape (biases m ! i) = (1, ncols (weights m ! i))"
      "(activation_funcs m ! i, activation_derivatives m ! i) \<in> registered"
      "i + 1 < length (weights m) \<longrightarrow> nrows (weights m ! (i + 1)) = ncols (weights m ! i)"
      using ws i' by (simp_all add: well_shaped_def)
    show ?thesis
    proof (intro conjI impI)
      show "shape (biases m' ! i) = (1, ncols (weights m' ! i))"
        using old(1) B[OF i'] W[OF i'] by simp
      show "(activation_funcs m' ! i, activation_derivatives m' ! i) \<in> registered"
        using old(2) fd by simp
      assume "i + 1 < length (weights m')"
      then have "i + 1 < length (weights m)" using n(1) by simp
      then show "nrows (weights m' ! (i + 1)) = ncols (weights m' ! i)"
        using old(3) W[OF i'] W[of "i + 1"] by simp
    qed
  qed
  show ?thesis
    unfolding well_shaped_def using ne(2) n(1,2) lens fd ws lst layers
    by (simp add: well_shaped_def)
qed

lemma update_layer_layout:
  "update_layer m gw gb i = Inr m' \<Longrightarrow> same_layout m m'"
  "update_layer m gw gb i = Inl (e, m') \<Longrightarrow> same_layout m m'"
  by (auto simp: update_layer_def same_layout_def py_get_def Let_def map_update shape_def
      list_update_same_conv dest!: inplace2_shape split: sum.splits if_splits)

lemmas train_eval =
  train_def train_epoch_def validate_def report_def update_weights_def update_layer_def
  backward_def backward_delta_def binary_cross_entropy_def binary_cross_entropyDerivative_def
  py_last_def np_T_def sum_axis0_def sigmoidDerivative_def reluDerivative_def example_y_def

lemma forward_layer_False_rng:
  "forward_layer m False i A g =
     (case forward_layer m False i A h of
        Inl e \<Rightarrow> Inl e
      | Inr (A', mk, h') \<Rightarrow> Inr (A', mk, g))"
  by (simp add: forward_layer_def dropout_no_mask split: sum.splits)

lemma forward_loop_False_rng:
  "forward_loop idxs m False A acts masks g =
     (case forward_loop idxs m False A acts masks h of
        Inl e \<Rightarrow> Inl e
      | Inr (acts', masks', h') \<Rightarrow> Inr (acts', masks', g))"
proof (induction idxs arbitrary: A acts masks g h)
  case Nil
  show ?case by simp
next
  case (Cons i rest)
  show ?case
  proof (cases "forward_layer m False i A h")
    case (Inl e)
    then show ?thesis using forward_layer_False_rng[of m i A g h] by simp
  next
    case (Inr p)
    obtain A' mk h' where p: "p = (A', mk, h')" by (cases p)
    have l: "forward_layer m False i A g = Inr (A', mk, g)"
      using forward_layer_False_rng[of m i A g h] Inr p by simp
    show ?thesis
      using Inr p l Cons.IH[of A' "acts @ [A']" "masks @ [mk]" g h'] by simp
  qed
qed

lemma forward_False_rng:
  "forward m X False g =
     (case forward m X False h of
        Inl e \<Rightarrow> Inl e
      | Inr (acts, masks, h') \<Rightarrow> Inr (acts, masks, g))"
  unfolding forward_def by (rule forward_loop_False_rng)

lemma forward_False_keeps_rng:
  assumes "forward m X False g = Inr (acts, masks, g')"
  shows "g' = g"
  using forward_False_rng[of m X g g] assms by simp

lemma predict_rng: "predict m X g = predict m X h"
  unfolding predict_def
  by (subst forward_False_rng[of m X g h]) (simp split: sum.splits prod.splits)

text \<open>
  Claim C7. When \<^verbatim>\<open>predict\<close> returns, its labels are the cells of the last
  activation of a forward pass that is not in training mode, each compared with 0.5:
  a label is 1 when the activation is greater than 0.5 and 0 otherwise, so an activation
  of exactly 0.5 gives the label 0, and every label is 0 or 1. The result does not
  depend on the generator. For a well-shaped model there is one label for every row of
  the batch, and \<^verbatim>\<open>predict\<close> returns on every batch whose width is the number of
  rows of the first weight matrix.
\<close>

theorem predict_labels:
  "(predict m X g = Inr labels \<longrightarrow>
      (\<exists>acts masks. forward m X False g = Inr (acts, masks, g)
         \<and> nrows labels = nrows (last acts) \<and> ncols labels = ncols (last acts)
         \<and> (\<forall>i j. cell labels i j = (if cell (last acts) i j > 1 / 2 then 1 else 0))
         \<and> (\<forall>i j. cell (last acts) i j = 1 / 2 \<longrightarrow> cell labels i j = 0))
      \<and> (\<forall>i j. cell labels i j = 0 \<or> cell labels i j = 1)
      \<and> (well_shaped m \<longrightarrow> nrows labels = nrows X \<and> ncols labels = 1))
   \<and> predict m X g = predict m X h
   \<and> (well_shaped m \<and> ncols X = nrows (hd (weights m)) \<longrightarrow>
        (\<exists>labels. predict m X g = Inr labels))"
proof -
  have a: "(\<exists>acts masks. forward m X False g = Inr (acts, masks, g)
         \<and> nrows labels = nrows (last acts) \<and> ncols labels = ncols (last acts)
         \<and> (\<forall>i j. cell labels i j = (if cell (last acts) i j > 1 / 2 then 1 else 0))
         \<and> (\<forall>i j. cell (last acts) i j = 1 / 2 \<longrightarrow> cell labels i j = 0))
      \<and> (\<forall>i j. cell labels i j = 0 \<or> cell labels i j = 1)
      \<and> (well_shaped m \<longrightarrow> nrows labels = nrows X \<and> ncols labels = 1)"
    if p: "predict m X g = Inr labels"
  proof -
    from p obtain acts masks g' where
      fw: "forward m X False g = Inr (acts, masks, g')" and
      ne: "acts \<noteq> []" and
      lab: "labels = map_array (\<lambda>x. if x > 1 / 2 then 1 else 0) (last acts)"
      by (auto simp: predict_def py_last_def split: sum.splits prod.splits if_splits)
    have g': "g' = g" using forward_False_keeps_rng[OF fw] .
    have sh: "nrows labels = nrows X \<and> ncols labels = 1" if "well_shaped m"
      using forward_shapes[OF that fw] lab by (simp add: map_array_def)
    show ?thesis
      using fw g' lab sh by (auto simp: map_array_def)
  qed
  have c: "\<exists>labels. predict m X g = Inr labels"
    if "well_shaped m" "ncols X = nrows (hd (weights m))"
  proof -
    from forward_returns[OF that] obtain acts masks g' where
      fw: "forward m X False g = Inr (acts, masks, g')" by blast
    have "length acts = length (weights m) + 1" using forward_Inr(1)[OF fw] .
    then have "acts \<noteq> []" by auto
    then show ?thesis using fw by (simp add: predict_def py_last_def)
  qed
  show ?thesis using a predict_rng[of m X g h] c by blast
qed

lemma example_model0_well_shaped: "well_shaped example_model0"
  by (simp add: well_shaped_def example_model0_def shape_def zeros_def registered_def)

theorem predict_labels_witness:
  "\<exists>labels. predict example_model0 example_X example_rng = Inr labels
     \<and> nrows labels = 1 \<and> ncols labels = 1 \<and> cell labels 0 0 = 0"
proof -
  have h: "well_shaped example_model0 \<and> ncols example_X = nrows (hd (weights example_model0))"
    using example_model0_well_shaped by (simp add: example_model0_def example_X_def zeros_def)
  then obtain labels where p: "predict example_model0 example_X example_rng = Inr labels"
    using predict_labels[of example_model0 example_X example_rng] by blast
  have fw: "forward example_model0 example_X False example_rng =
       Inr ([example_X, NDArray 1 1 (\<lambda>i j. 1 / 2)], [None], example_rng)"
    by (simp add: example_eval)
  have ex: "nrows example_X = 1" by (simp add: example_X_def)
  from predict_labels[of example_model0 example_X example_rng labels] p h fw ex
  have "nrows labels = 1 \<and> ncols labels = 1 \<and> cell labels 0 0 = 0"
    by auto
  then show ?thesis using p by auto
qed

lemma forward_layer_fields:
  assumes "weights a = weights b" and "biases a = biases b"
    and "activation_funcs a = activation_funcs b" and "dropout_rates a = dropout_rates b"
  shows "forward_layer a training i A g = forward_layer b training i A g"
  unfolding forward_layer_def dropout_def assms ..

lemma forward_loop_fields:
  assumes "weights a = weights b" and "biases a = biases b"
    and "activation_funcs a = activation_funcs b" and "dropout_rates a = dropout_rates b"
  shows "forward_loop idxs a training A acts masks g = forward_loop idxs b training A acts masks g"
proof (induction idxs arbitrary: A acts masks g)
  case Nil
  show ?case by simp
next
  case (Cons i rest)
  show ?case
    by (simp add: forward_layer_fields[OF assms] Cons.IH split: sum.splits prod.splits)
qed

lemma forward_fields:
  assumes "weights a = weights b" and "biases a = biases b"
    and "activation_funcs a = activation_funcs b" and "dropout_rates a = dropout_rates b"
  shows "forward a X training g = forward b X training g"
  unfolding forward_def using forward_loop_fields[OF assms] assms(1) by simp

lemma update_layer_fields:
  "update_layer m gw gb i = Inr m' \<Longrightarrow> m' = m\<lparr>weights := weights m', biases := biases m'\<rparr>"
  "update_layer m gw gb i = Inl (e, m') \<Longrightarrow> m' = m\<lparr>weights := weights m', biases := biases m'\<rparr>"
  by (auto simp: update_layer_def Let_def split: sum.splits)

lemma update_loop_fields:
  "update_loop idxs m gw gb = Inr m' \<Longrightarrow>
     m' = m\<lparr>weights := weights m', biases := biases m'\<rparr> \<and> same_layout m m'"
proof (induction idxs arbitrary: m)
  case Nil
  then show ?case by (simp add: same_layout_refl)
next
  case (Cons i rest)
  from Cons.prems obtain m1 where
    l: "update_layer m gw gb i = Inr m1" and r: "update_loop rest m1 gw gb = Inr m'"
    by (auto split: sum.splits)
  have 1: "m1 = m\<lparr>weights := weights m1, biases := biases m1\<rparr>" "same_layout m m1"
    using update_layer_fields(1)[OF l] update_layer_layout(1)[OF l] by simp_all
  have 2: "m' = m1\<lparr>weights := weights m', biases := biases m'\<rparr>" "same_layout m1 m'"
    using Cons.IH[OF r] by simp_all
  have "m' = m\<lparr>weights := weights m', biases := biases m'\<rparr>"
    by (subst 2(1), subst 1(1)) simp
  then show ?case using same_layout_trans[OF 1(2) 2(2)] by simp
qed

lemma update_weights_fields:
  assumes "update_weights m gw gb = Inr m'"
  shows "m' = m\<lparr>weights := weights m', biases := biases m'\<rparr>" and "same_layout m m'"
  using update_loop_fields assms unfolding update_weights_def by blast+

lemma validate_Inr:
  assumes "validate m X_val y_val g vl = Inr (m', g', vl')"
  shows "m' = m\<lparr>val_losses := val_losses m'\<rparr>"
    and "case (X_val, y_val) of
           (Some Xv, Some yv) \<Rightarrow>
             (\<exists>acts masks l. forward m' Xv False g = Inr (acts, masks, g)
                \<and> binary_cross_entropy yv (last acts) = Inr l
                \<and> val_losses m' = val_losses m @ [l + l2_penalty (weights m') (l2_lambda m')]
                \<and> vl' = Some (l + l2_penalty (weights m') (l2_lambda m')))
         | _ \<Rightarrow> val_losses m' = val_losses m \<and> vl' = vl"
    and "g' = g"
proof -
  show "m' = m\<lparr>val_losses := val_losses m'\<rparr>"
    using assms by (auto simp: validate_def Let_def split: option.splits sum.splits prod.splits)
  show "g' = g"
    using assms forward_False_keeps_rng
    by (auto simp: validate_def Let_def split: option.splits sum.splits prod.splits)
  show "case (X_val, y_val) of
           (Some Xv, Some yv) \<Rightarrow>
             (\<exists>acts masks l. forward m' Xv False g = Inr (acts, masks, g)
                \<and> binary_cross_entropy yv (last acts) = Inr l
                \<and> val_losses m' = val_losses m @ [l + l2_penalty (weights m') (l2_lambda m')]
                \<and> vl' = Some (l + l2_penalty (weights m') (l2_lambda m')))
         | _ \<Rightarrow> val_losses m' = val_losses m \<and> vl' = vl"
  proof (cases "\<exists>Xv yv. X_val = Some Xv \<and> y_val = Some yv")
    case False
    then show ?thesis using assms
      by (auto simp: validate_def split: option.splits)
  next
    case True
    then obtain Xv yv where v: "X_val = Some Xv" "y_val = Some yv" by blast
    from assms v obtain acts masks g1 l where
      fw: "forward m Xv False g = Inr (acts, masks, g1)" and
      ne: "acts \<noteq> []" and
      bce: "binary_cross_entropy yv (last acts) = Inr l" and
      res: "m' = m\<lparr>val_losses := val_losses m @ [l + l2_penalty (weights m) (l2_lambda m)]\<rparr>"
           "vl' = Some (l + l2_penalty (weights m) (l2_lambda m))"
      by (auto simp: validate_def py_last_def Let_def split: sum.splits prod.splits if_splits)
    have g1: "g1 = g" using forward_False_keeps_rng[OF fw] .
    have "forward m' Xv False g = forward m Xv False g"
      by (rule forward_fields) (simp_all add: res(1))
    then show ?thesis using v fw g1 bce res by simp
  qed
qed

section \<open>Properties of the backward pass\<close>

lemma forward_mask_entry:
  assumes fw: "forward m X training g = Inr (acts, masks, g')" and i: "i < length (weights m)"
  shows "masks ! i = None \<or>
           (\<exists>M. masks ! i = Some M \<and> nrows M = nrows (acts ! (i + 1))
              \<and> ncols M = ncols (acts ! (i + 1))
              \<and> (\<forall>r<nrows M. \<forall>c<ncols M.
                    (cell M r c = 0 \<or> cell M r c = 1)
                    \<and> (cell M r c = 0 \<longrightarrow> cell (acts ! (i + 1)) r c = 0)))"
proof -
  from forward_Inr(5)[OF fw i] obtain off g2 where
    l: "forward_layer m training i (acts ! i) (skip_rand off g)
          = Inr (acts ! (i + 1), masks ! i, g2)" by blast
  show ?thesis
  proof (cases "training \<and> i < length (dropout_rates m) \<and> dropout_rates m ! i > 0")
    case True
    then have t: "training" "i < length (dropout_rates m)" "dropout_rates m ! i > 0"
      by simp_all
    from forward_layer_with_mask[OF l t] obtain B M where
      "masks ! i = Some M" "nrows M = nrows B" "ncols M = ncols B"
      "nrows (acts ! (i + 1)) = nrows B" "ncols (acts ! (i + 1)) = ncols B"
      "\<forall>r<nrows B. \<forall>c<ncols B.
         cell M r c = (if rand_draws (skip_rand off g) (r * ncols B + c) > dropout_rates m ! i
                       then 1 else 0)
         \<and> cell (acts ! (i + 1)) r c = cell B r c * cell M r c / (1 - dropout_rates m ! i)"
      by blast
    then show ?thesis by auto
  next
    case False
    then show ?thesis using forward_layer_no_mask[OF l False] by simp
  qed
qed

lemma forward_acts_shapes:
  assumes "well_shaped m" and "forward m X training g = Inr (acts, masks, g')"
    and "i \<le> length (weights m)"
  shows "nrows (acts ! i) = nrows X"
    and "0 < i \<Longrightarrow> ncols (acts ! i) = ncols (weights m ! (i - 1))"
  using forward_upto_shapes[OF assms(1) le_refl assms(2)[unfolded forward_def] assms(3)]
  by simp_all


lemma broadcast2_same_shape:
  assumes "nrows B = nrows A" and "ncols B = ncols A"
  shows "\<exists>C. broadcast2 f A B = Inr C \<and> nrows C = nrows A \<and> ncols C = ncols A
           \<and> (\<forall>r<nrows A. \<forall>c<ncols A. cell C r c = f (cell A r c) (cell B r c))"
  using assms by (simp add: broadcast2_def bdim_same bidx_lt)




section \<open>Properties of the training loop\<close>

text \<open>
  The gradients come out in the order of the layers, one per weight matrix. Those of the
  last layer are made of the derivative of the loss and of the activation alone: the
  weight gradient is the transposed input of the layer times the first delta, the bias
  gradient the column sums of that delta.
\<close>

lemma backward_loop_prepends:
  assumes "backward_loop idxs m acts masks delta gw gb = Inr (gw', gb')"
  shows "\<exists>pw pb. gw' = pw @ gw \<and> gb' = pb @ gb
           \<and> length pw = length idxs \<and> length pb = length idxs"
  using assms
proof (induction idxs arbitrary: delta gw gb)
  case Nil
  then show ?case by simp
next
  case (Cons i rest)
  from Cons.prems obtain G delta' where
    r: "backward_loop rest m acts masks delta' (G # gw) (sum_axis0 delta # gb) = Inr (gw', gb')"
    by (auto split: sum.splits if_splits)
  from Cons.IH[OF r] obtain pw pb where
    "gw' = pw @ (G # gw)" "gb' = pb @ (sum_axis0 delta # gb)"
    "length pw = length rest" "length pb = length rest"
    by blast
  then have "gw' = (pw @ [G]) @ gw \<and> gb' = (pb @ [sum_axis0 delta]) @ gb
           \<and> length (pw @ [G]) = length (i # rest)
           \<and> length (pb @ [sum_axis0 delta]) = length (i # rest)"
    by simp
  then show ?case by blast
qed

lemma backward_loop_first:
  assumes "backward_loop (i # rest) m acts masks delta [] [] = Inr (gw, gb)"
  shows "i < length acts \<and> dot (np_T (acts ! i)) delta = Inr (last gw)
           \<and> last gb = sum_axis0 delta"
proof -
  from assms obtain G delta' where
    i: "i < length acts" and G: "dot (np_T (acts ! i)) delta = Inr G" and
    r: "backward_loop rest m acts masks delta' [G] [sum_axis0 delta] = Inr (gw, gb)"
    by (auto simp: py_get_def split: sum.splits if_splits)
  from backward_loop_prepends[OF r] obtain pw pb where
    "gw = pw @ [G]" "gb = pb @ [sum_axis0 delta]" by blast
  then show ?thesis using i G by simp
qed

lemma backward_output_gradient:
  assumes bw: "backward m acts y masks = Inr (gw, gb)"
  shows "length gw = length (weights m)" and "length gb = length (weights m)"
    and "weights m \<noteq> [] \<Longrightarrow>
           \<exists>D delta. binary_cross_entropyDerivative y (last acts) = Inr D
             \<and> broadcast2 (*) D (last (activation_derivatives m) (last acts)) = Inr delta
             \<and> dot (np_T (acts ! (length (weights m) - 1))) delta = Inr (last gw)
             \<and> last gb = sum_axis0 delta"
proof -
  from bw obtain D delta where
    ne: "acts \<noteq> []" "activation_derivatives m \<noteq> []" and
    D: "binary_cross_entropyDerivative y (last acts) = Inr D" and
    d: "broadcast2 (*) D (last (activation_derivatives m) (last acts)) = Inr delta" and
    l: "backward_loop (rev [0..<length (weights m)]) m acts masks delta [] [] = Inr (gw, gb)"
    by (auto simp: backward_def py_last_def split: sum.splits if_splits)
  from backward_loop_prepends[OF l]
  show "length gw = length (weights m)" and "length gb = length (weights m)" by auto
  show "\<exists>D delta. binary_cross_entropyDerivative y (last acts) = Inr D
             \<and> broadcast2 (*) D (last (activation_derivatives m) (last acts)) = Inr delta
             \<and> dot (np_T (acts ! (length (weights m) - 1))) delta = Inr (last gw)
             \<and> last gb = sum_axis0 delta"
    if wne: "weights m \<noteq> []"
  proof -
    obtain n where n: "length (weights m) = Suc n"
      using wne by (cases "length (weights m)") auto
    have "rev [0..<length (weights m)] = n # rev [0..<n]" unfolding n by simp
    then have "backward_loop (n # rev [0..<n]) m acts masks delta [] [] = Inr (gw, gb)"
      using l by simp
    from backward_loop_first[OF this] D d n show ?thesis by auto
  qed
qed

lemma backward_delta_l2:
  "backward_delta (m\<lparr>l2_lambda := a\<rparr>) acts masks i delta = backward_delta m acts masks i delta"
  by (simp add: backward_delta_def cong: sum.case_cong)

lemma backward_loop_l2:
  "backward_loop idxs (m\<lparr>l2_lambda := a\<rparr>) acts masks delta gw gb =
     backward_loop idxs m acts masks delta gw gb"
proof (induction idxs arbitrary: delta gw gb)
  case Nil
  show ?case by simp
next
  case (Cons i rest)
  show ?case
    by (simp add: backward_delta_l2 Cons.IH split: sum.splits)
qed

lemma backward_l2:
  "backward (m\<lparr>l2_lambda := a\<rparr>) acts y masks = backward m acts y masks"
  by (simp add: backward_def backward_loop_l2 cong: sum.case_cong)

lemma train_epoch_Inr:
  assumes "train_epoch X y X_val y_val epoch m g vl = Inr (m', g', vl')"
  shows "\<exists>acts masks g1 gw gb m1 l.
           forward m X True g = Inr (acts, masks, g1)
           \<and> backward m acts y masks = Inr (gw, gb)
           \<and> update_weights m gw gb = Inr m1
           \<and> weights m' = weights m1 \<and> biases m' = biases m1
           \<and> binary_cross_entropy y (last acts) = Inr l
           \<and> train_losses m' = train_losses m @ [l + l2_penalty (weights m') (l2_lambda m)]
           \<and> g' = g1"
    and "case (X_val, y_val) of
           (Some Xv, Some yv) \<Rightarrow>
             (\<exists>acts masks l. forward m' Xv False g' = Inr (acts, masks, g')
                \<and> binary_cross_entropy yv (last acts) = Inr l
                \<and> val_losses m' = val_losses m @ [l + l2_penalty (weights m') (l2_lambda m)]
                \<and> vl' = Some (l + l2_penalty (weights m') (l2_lambda m)))
         | _ \<Rightarrow> val_losses m' = val_losses m \<and> vl' = vl"
    and "same_layout m m'"
proof -
  from assms obtain acts masks g1 gw gb m1 l m3 g2 where
    fw: "forward m X True g = Inr (acts, masks, g1)" and
    bw: "backward m acts y masks = Inr (gw, gb)" and
    up: "update_weights m gw gb = Inr m1" and
    ne: "acts \<noteq> []" and
    bce: "binary_cross_entropy y (last acts) = Inr l" and
    va: "validate (m1\<lparr>train_losses := train_losses m1 @ [l + l2_penalty (weights m1) (l2_lambda m1)]\<rparr>)
           X_val y_val g1 vl = Inr (m3, g2, vl')" and
    res: "m' = m3" "g' = g2"
    by (auto simp: train_epoch_def py_last_def Let_def
        split: sum.splits prod.splits if_splits option.splits)
  let ?m2 = "m1\<lparr>train_losses := train_losses m1 @ [l + l2_penalty (weights m1) (l2_lambda m1)]\<rparr>"
  note u = update_weights_fields[OF up]
  note v = validate_Inr[OF va]
  have m1: "train_losses m1 = train_losses m" "val_losses m1 = val_losses m"
    "l2_lambda m1 = l2_lambda m"
    by (subst u(1), simp)+
  have m3: "weights m3 = weights m1" "biases m3 = biases m1"
    "train_losses m3 = train_losses m @ [l + l2_penalty (weights m1) (l2_lambda m)]"
    "l2_lambda m3 = l2_lambda m"
    using m1 by (subst v(1), simp)+
  show "\<exists>acts masks g1 gw gb m1 l.
           forward m X True g = Inr (acts, masks, g1)
           \<and> backward m acts y masks = Inr (gw, gb)
           \<and> update_weights m gw gb = Inr m1
           \<and> weights m' = weights m1 \<and> biases m' = biases m1
           \<and> binary_cross_entropy y (last acts) = Inr l
           \<and> train_losses m' = train_losses m @ [l + l2_penalty (weights m') (l2_lambda m)]
           \<and> g' = g1"
    using fw bw up bce m3 res v(3) by auto
  have vm2: "val_losses ?m2 = val_losses m" using m1 by simp
  show "case (X_val, y_val) of
           (Some Xv, Some yv) \<Rightarrow>
             (\<exists>acts masks l. forward m' Xv False g' = Inr (acts, masks, g')
                \<and> binary_cross_entropy yv (last acts) = Inr l
                \<and> val_losses m' = val_losses m @ [l + l2_penalty (weights m') (l2_lambda m)]
                \<and> vl' = Some (l + l2_penalty (weights m') (l2_lambda m)))
         | _ \<Rightarrow> val_losses m' = val_losses m \<and> vl' = vl"
    using v(2) v(3) res m3(4) vm2 by (auto split: option.splits)
  have "same_layout ?m2 m3"
    by (subst v(1)) (simp add: same_layout_def)
  moreover have "same_layout m ?m2"
    using u(2) by (simp add: same_layout_def)
  ultimately show "same_layout m m'"
    using res same_layout_trans by blast
qed

lemma train_loop_histories:
  assumes "train_loop idxs X y X_val y_val m g vl = Inr (m', g')"
  shows "length (train_losses m') = length (train_losses m) + length idxs
       \<and> length (val_losses m') = length (val_losses m)
            + (if X_val \<noteq> None \<and> y_val \<noteq> None then length idxs else 0)
       \<and> same_layout m m'"
  using assms
proof (induction idxs arbitrary: m g vl)
  case Nil
  then show ?case by (simp add: same_layout_refl)
next
  case (Cons epoch rest)
  from Cons.prems obtain m1 g1 vl1 where
    e: "train_epoch X y X_val y_val epoch m g vl = Inr (m1, g1, vl1)" and
    r: "train_loop rest X y X_val y_val m1 g1 vl1 = Inr (m', g')"
    by (auto split: sum.splits prod.splits)
  from train_epoch_Inr(1)[OF e]
  have t: "length (train_losses m1) = length (train_losses m) + 1" by auto
  from train_epoch_Inr(2)[OF e]
  have v: "length (val_losses m1) = length (val_losses m)
            + (if X_val \<noteq> None \<and> y_val \<noteq> None then 1 else 0)"
    by (auto split: option.splits)
  show ?case
    using Cons.IH[OF r] t v same_layout_trans[OF train_epoch_Inr(3)[OF e]] by auto
qed

text \<open>
  A call of \<^verbatim>\<open>train\<close> that returns has appended one train loss per epoch, and one
  validation loss per epoch exactly when \<^verbatim>\<open>X_val\<close> and \<^verbatim>\<open>y_val\<close> are both given;
  it has kept the shapes of all parameters.
\<close>

lemma train_histories:
  assumes "train m X y X_val y_val g = Inr (m', g')"
  shows "length (train_losses m') = length (train_losses m) + nat (epochs m)"
    and "length (val_losses m') = length (val_losses m)
            + (if X_val \<noteq> None \<and> y_val \<noteq> None then nat (epochs m) else 0)"
    and "same_layout m m'"
  using train_loop_histories[OF assms[unfolded train_def]] by simp_all

lemma init_hidden_layers:
  assumes "init isz hidden anames dr lr ep l2 g = Inr (m, g')"
  shows "hidden_layers m = hidden"
proof -
  have layer: "hidden_layers b = hidden_layers a"
    if "initialize_layer ls i a h = Inr (b, h')" for ls i a h b h'
    using that
    by (auto simp: initialize_layer_def Let_def split: sum.splits option.splits prod.splits)
  have loop: "hidden_layers b = hidden_layers a"
    if "initialize_loop idxs ls a h = Inr (b, h')" for idxs ls a h b h'
    using that
  proof (induction idxs arbitrary: a h)
    case Nil
    then show ?case by simp
  next
    case (Cons i rest)
    then show ?case by (auto split: sum.splits prod.splits dest: layer)
  qed
  show ?thesis
    using assms loop
    by (fastforce simp: init_def initialize_network_def Let_def split: if_splits)
qed

text \<open>
  A model the constructor has built, trained or not, is well-shaped and has one weight
  matrix more than it has hidden layers.
\<close>

lemma constructed_and_trained:
  assumes c: "init isz hidden anames dr lr ep l2 g0 = Inr (m, g1)"
    and t: "train m X y X_val y_val g = Inr (m', g')"
  shows "well_shaped m \<and> length (weights m) = length (hidden_layers m) + 1"
    and "well_shaped m' \<and> length (weights m') = length (hidden_layers m') + 1"
proof -
  show 1: "well_shaped m \<and> length (weights m) = length (hidden_layers m) + 1"
    using init_well_shaped(1,2)[OF c] init_hidden_layers[OF c] by simp
  have sl: "same_layout m m'" using train_histories(3)[OF t] .
  have "hidden_layers m' = hidden_layers m" using sl by (simp add: same_layout_def)
  then show "well_shaped m' \<and> length (weights m') = length (hidden_layers m') + 1"
    using 1 well_shaped_same_layout[OF sl] same_layout_nth(1)[OF sl] by simp
qed

lemma report_unbound:
  "report m y a (Some Xv) 0 None \<noteq> None"
  by (simp add: report_def split: sum.splits)

lemma validate_X_val_only: "validate m (Some Xv) None g vl = Inr (m, g, vl)"
  by (simp add: validate_def)

lemma train_epoch_unbound:
  "\<exists>e m'. train_epoch X y (Some Xv) None 0 m g None = Inl (e, m')"
proof (cases "train_epoch X y (Some Xv) None 0 m g None")
  case (Inl p)
  then show ?thesis by (cases p) simp
next
  case (Inr p)
  then obtain m3 a where "report m3 y a (Some Xv) 0 None = None"
    by (auto simp: train_epoch_def validate_X_val_only Let_def
        split: sum.splits prod.splits option.splits)
  then show ?thesis using report_unbound by blast
qed

text \<open>
  With \<^verbatim>\<open>X_val\<close> given and \<^verbatim>\<open>y_val\<close> left out, \<^verbatim>\<open>train\<close> never returns
  when there is an epoch to run: epoch 0 ends in an error.
\<close>

lemma train_X_val_only_raises:
  assumes "0 < epochs m"
  shows "\<exists>e m'. train m X y (Some Xv) None g = Inl (e, m')"
proof -
  obtain n where n: "nat (epochs m) = Suc n" using assms by (cases "nat (epochs m)") auto
  have "[0..<nat (epochs m)] = 0 # [1..<Suc n]" unfolding n by (simp add: upt_conv_Cons)
  then show ?thesis
    using train_epoch_unbound[of X y Xv m g] by (auto simp: train_def)
qed

text \<open>
  Claim C1. The result of \<^verbatim>\<open>backward\<close> does not change when \<^verbatim>\<open>l2_lambda\<close> is
  changed, and the gradients of the last layer are the transposed input of that layer
  times the delta of the loss derivative and the activation derivative, and the column
  sums of that delta: no penalty term enters. An epoch that completes has
  run a forward pass in training mode, the backward pass on its cache and the update with
  its gradients, and has appended to the train losses the binary cross-entropy of the
  labels against the last activation of that pass plus \<^verbatim>\<open>l2_penalty\<close> of the updated
  weights with \<^verbatim>\<open>l2_lambda\<close>. With \<^verbatim>\<open>X_val\<close> and \<^verbatim>\<open>y_val\<close> both given it
  has appended to the validation losses the same sum for a forward pass over
  \<^verbatim>\<open>X_val\<close> that is not in training mode; otherwise the validation losses are as
  before.
\<close>

theorem backward_without_l2_loss_with_l2:
  "backward (m\<lparr>l2_lambda := a\<rparr>) acts0 y masks0 = backward m acts0 y masks0
   \<and> (backward m acts0 y masks0 = Inr (gw0, gb0) \<and> weights m \<noteq> [] \<longrightarrow>
        length gw0 = length (weights m) \<and> length gb0 = length (weights m)
        \<and> (\<exists>D delta. binary_cross_entropyDerivative y (last acts0) = Inr D
              \<and> broadcast2 (*) D (last (activation_derivatives m) (last acts0)) = Inr delta
              \<and> dot (np_T (acts0 ! (length (weights m) - 1))) delta = Inr (last gw0)
              \<and> last gb0 = sum_axis0 delta))
   \<and> (train_epoch X y X_val y_val epoch m g vl = Inr (m', g', vl') \<longrightarrow>
        (\<exists>acts masks gw gb m1 l.
           forward m X True g = Inr (acts, masks, g')
           \<and> backward m acts y masks = Inr (gw, gb)
           \<and> update_weights m gw gb = Inr m1
           \<and> weights m' = weights m1 \<and> biases m' = biases m1
           \<and> binary_cross_entropy y (last acts) = Inr l
           \<and> train_losses m' = train_losses m @ [l + l2_penalty (weights m') (l2_lambda m)])
        \<and> (case (X_val, y_val) of
              (Some Xv, Some yv) \<Rightarrow>
                (\<exists>acts masks l. forward m' Xv False g' = Inr (acts, masks, g')
                   \<and> binary_cross_entropy yv (last acts) = Inr l
                   \<and> val_losses m' = val_losses m @ [l + l2_penalty (weights m') (l2_lambda m)])
            | _ \<Rightarrow> val_losses m' = val_losses m))"
proof -
  have e: "(\<exists>acts masks gw gb m1 l.
           forward m X True g = Inr (acts, masks, g')
           \<and> backward m acts y masks = Inr (gw, gb)
           \<and> update_weights m gw gb = Inr m1
           \<and> weights m' = weights m1 \<and> biases m' = biases m1
           \<and> binary_cross_entropy y (last acts) = Inr l
           \<and> train_losses m' = train_losses m @ [l + l2_penalty (weights m') (l2_lambda m)])
        \<and> (case (X_val, y_val) of
              (Some Xv, Some yv) \<Rightarrow>
                (\<exists>acts masks l. forward m' Xv False g' = Inr (acts, masks, g')
                   \<and> binary_cross_entropy yv (last acts) = Inr l
                   \<and> val_losses m' = val_losses m @ [l + l2_penalty (weights m') (l2_lambda m)])
            | _ \<Rightarrow> val_losses m' = val_losses m)"
    if t: "train_epoch X y X_val y_val epoch m g vl = Inr (m', g', vl')"
  proof (rule conjI)
    show "\<exists>acts masks gw gb m1 l.
           forward m X True g = Inr (acts, masks, g')
           \<and> backward m acts y masks = Inr (gw, gb)
           \<and> update_weights m gw gb = Inr m1
           \<and> weights m' = weights m1 \<and> biases m' = biases m1
           \<and> binary_cross_entropy y (last acts) = Inr l
           \<and> train_losses m' = train_losses m @ [l + l2_penalty (weights m') (l2_lambda m)]"
      using train_epoch_Inr(1)[OF t] by blast
    show "case (X_val, y_val) of
              (Some Xv, Some yv) \<Rightarrow>
                (\<exists>acts masks l. forward m' Xv False g' = Inr (acts, masks, g')
                   \<and> binary_cross_entropy yv (last acts) = Inr l
                   \<and> val_losses m' = val_losses m @ [l + l2_penalty (weights m') (l2_lambda m)])
            | _ \<Rightarrow> val_losses m' = val_losses m"
      using train_epoch_Inr(2)[OF t] by (auto split: option.splits)
  qed
  have o: "length gw0 = length (weights m) \<and> length gb0 = length (weights m)
        \<and> (\<exists>D delta. binary_cross_entropyDerivative y (last acts0) = Inr D
              \<and> broadcast2 (*) D (last (activation_derivatives m) (last acts0)) = Inr delta
              \<and> dot (np_T (acts0 ! (length (weights m) - 1))) delta = Inr (last gw0)
              \<and> last gb0 = sum_axis0 delta)"
    if "backward m acts0 y masks0 = Inr (gw0, gb0)" "weights m \<noteq> []"
    using backward_output_gradient[OF that(1)] that(2) by simp
  show ?thesis using backward_l2 o e by blast
qed

theorem backward_without_l2_loss_with_l2_witness:
  "\<exists>m' g' vl'.
     train_epoch example_X example_y (Some example_X) (Some example_y) 0
       example_model0 example_rng None = Inr (m', g', vl')
     \<and> length (train_losses m') = 1 \<and> length (val_losses m') = 1"
proof -
  have "\<exists>m' g' vl'.
     train_epoch example_X example_y (Some example_X) (Some example_y) 0
       example_model0 example_rng None = Inr (m', g', vl')"
    by (simp add: example_eval train_eval)
  then obtain m' g' vl' where
    t: "train_epoch example_X example_y (Some example_X) (Some example_y) 0
       example_model0 example_rng None = Inr (m', g', vl')"
    by blast
  have z: "train_losses example_model0 = []" "val_losses example_model0 = []"
    by (simp_all add: example_model0_def)
  from backward_without_l2_loss_with_l2[where X = example_X and y = example_y
      and X_val = "Some example_X" and y_val = "Some example_y" and epoch = 0
      and m = example_model0 and g = example_rng and vl = None
      and m' = m' and g' = g' and vl' = vl' and a = 0 and ?acts0.0 = "[]"
      and ?masks0.0 = "[]" and ?gw0.0 = "[]" and ?gb0.0 = "[]"] t z
  have "length (train_losses m') = 1 \<and> length (val_losses m') = 1"
    by auto
  then show ?thesis using t by blast
qed

text \<open>
  Claim C6 on an input the code does not handle: \<^verbatim>\<open>X_val\<close> given and \<^verbatim>\<open>y_val\<close>
  left out. The validation step is skipped, since it asks for both, but the report of
  epoch 0 reads \<^verbatim>\<open>val_loss\<close> as soon as \<^verbatim>\<open>X_val\<close> is given. On the example
  model, whose epoch count is 2, \<^verbatim>\<open>train\<close> raises a \<^verbatim>\<open>NameError\<close> in epoch 0
  and leaves one train loss behind, not two.
\<close>

theorem train_unbound_val_loss:
  "\<exists>m'. train example_model0 example_X example_y (Some example_X) None example_rng
          = Inl (NameError ''val_loss'', m')
        \<and> length (train_losses m') = 1 \<and> val_losses m' = []
        \<and> epochs example_model0 = 2"
  by (simp add: example_eval train_eval upt_conv_Cons)

section \<open>The gradient of logistic regression\<close>

lemma broadcast_bias_cells:
  assumes "nrows b = 1" and "ncols b = ncols P"
  shows "\<exists>Z. broadcast2 f P b = Inr Z \<and> nrows Z = nrows P \<and> ncols Z = ncols P
           \<and> (\<forall>r<nrows P. \<forall>c<ncols P. cell Z r c = f (cell P r c) (cell b 0 c))"
  using assms by (auto simp: broadcast2_def bdim_def bidx_def)

text \<open>
  Claim C2, as the code has it. Take a model with one weight matrix \<open>W\<close> of one
  column, one bias, the sigmoid as its activation and no positive dropout rate, a batch
  \<open>X\<close> of any number of rows and labels \<open>y\<close> with one row per example. The forward
  pass in training mode caches \<open>A = sigmoid (X W + b)\<close> and records no mask, and the
  weight gradient of \<^verbatim>\<open>backward\<close> is, for every input column \<open>j\<close>, the sum over the
  examples \<open>k\<close> of \<open>X k j\<close> times
  \<open>(A k - y k) / (A k * (1 - A k) + eps) * (A k * (1 - A k))\<close>: the difference
  \<open>A k - y k\<close> of the closed form, damped by the \<open>eps\<close> of the loss derivative. It is
  a plain sum, not divided by the number of examples.
\<close>

theorem logistic_gradient_with_eps:
  assumes m: "weights m = [W]" "biases m = [b]" "activation_funcs m = [sigmoid]"
      "activation_derivatives m = [sigmoidDerivative]"
    and nodrop: "\<forall>r\<in>set (dropout_rates m). r \<le> 0"
    and sh: "ncols X = nrows W" "ncols W = 1" "nrows b = 1" "ncols b = 1"
      "nrows y = nrows X" "ncols y = 1"
  shows "\<exists>A gw gb.
           forward m X True g = Inr ([X, A], [None], g)
           \<and> backward m [X, A] y [None] = Inr ([gw], [gb])
           \<and> nrows A = nrows X \<and> ncols A = 1
           \<and> (\<forall>k<nrows X. cell A k 0 =
                  1 / (1 + exp (- ((\<Sum>l<ncols X. cell X k l * cell W l 0) + cell b 0 0))))
           \<and> nrows gw = ncols X \<and> ncols gw = 1
           \<and> (\<forall>j<ncols X. cell gw j 0 =
                  (\<Sum>k<nrows X. cell X k j *
                     ((cell A k 0 - cell y k 0) / (cell A k 0 * (1 - cell A k 0) + eps)
                        * (cell A k 0 * (1 - cell A k 0)))))"
proof -
  let ?P = "NDArray (nrows X) (ncols W) (\<lambda>i j. \<Sum>k<ncols X. cell X i k * cell W k j)"
  have P: "dot X W = Inr ?P" using sh(1) by (simp add: dot_def)
  obtain Z where Z: "broadcast2 (+) ?P b = Inr Z" "nrows Z = nrows X" "ncols Z = 1"
    and Zc: "\<forall>r<nrows X. \<forall>c<1. cell Z r c = cell ?P r c + cell b 0 c"
    using broadcast_bias_cells[of b ?P "(+)"] sh by auto
  let ?A = "sigmoid Z"
  have As: "nrows ?A = nrows X" "ncols ?A = 1"
    using Z by (simp_all add: sigmoid_def map_array_def)
  have Ac: "cell ?A k 0 = 1 / (1 + exp (- ((\<Sum>l<ncols X. cell X k l * cell W l 0) + cell b 0 0)))"
    if "k < nrows X" for k
    using Zc that by (simp add: sigmoid_def map_array_def)
  have fw: "forward m X True g = Inr ([X, ?A], [None], g)"
    using P Z(1) by (simp add: forward_def forward_layer_def py_get_def m
        dropout_zero_rates[OF nodrop])
  obtain D where D: "binary_cross_entropyDerivative y ?A = Inr D"
      "nrows D = nrows X" "ncols D = 1"
    and Dc: "\<forall>r<nrows X. \<forall>c<1. cell D r c
               = (cell ?A r c - cell y r c) / (cell ?A r c * (1 - cell ?A r c) + eps)"
    using broadcast2_same_shape[of ?A y "\<lambda>t p. (p - t) / (p * (1 - p) + eps)"] As sh
    unfolding binary_cross_entropyDerivative_def by auto
  let ?dA = "sigmoidDerivative ?A"
  have dAs: "nrows ?dA = nrows D" "ncols ?dA = ncols D"
    using As D by (simp_all add: sigmoidDerivative_def map_array_def)
  have dAc: "cell ?dA r c = cell ?A r c * (1 - cell ?A r c)" for r c
    by (simp add: sigmoidDerivative_def map_array_def)
  obtain delta where delta: "broadcast2 (*) D ?dA = Inr delta"
      "nrows delta = nrows X" "ncols delta = 1"
    and dc: "\<forall>r<nrows X. \<forall>c<1. cell delta r c = cell D r c * cell ?dA r c"
    using broadcast2_same_shape[OF dAs, of "(*)"] D by auto
  let ?G = "NDArray (ncols X) (ncols delta) (\<lambda>i j. \<Sum>k<nrows X. cell X k i * cell delta k j)"
  have G: "dot (np_T X) delta = Inr ?G"
    using delta by (simp add: dot_def np_T_def)
  have bw: "backward m [X, ?A] y [None] = Inr ([?G], [sum_axis0 delta])"
    using D(1) delta(1) G by (simp add: backward_def py_last_def py_get_def m)
  have Gc: "cell ?G j 0 =
                  (\<Sum>k<nrows X. cell X k j *
                     ((cell ?A k 0 - cell y k 0) / (cell ?A k 0 * (1 - cell ?A k 0) + eps)
                        * (cell ?A k 0 * (1 - cell ?A k 0))))" for j
  proof -
    have dk: "cell delta k 0 =
                (cell ?A k 0 - cell y k 0) / (cell ?A k 0 * (1 - cell ?A k 0) + eps)
                  * (cell ?A k 0 * (1 - cell ?A k 0))" if "k < nrows X" for k
      using Dc dc dAc that by simp
    have "cell ?G j 0 = (\<Sum>k<nrows X. cell X k j * cell delta k 0)" by simp
    also have "\<dots> = (\<Sum>k<nrows X. cell X k j *
                     ((cell ?A k 0 - cell y k 0) / (cell ?A k 0 * (1 - cell ?A k 0) + eps)
                        * (cell ?A k 0 * (1 - cell ?A k 0))))"
      by (rule sum.cong) (simp_all add: dk)
    finally show ?thesis .
  qed
  show ?thesis
    using fw bw As Ac Gc delta by (intro exI[of _ ?A] exI[of _ ?G] exI[of _ "sum_axis0 delta"]) simp
qed

theorem logistic_gradient_with_eps_witness:
  "\<exists>A gw gb.
     forward example_model0 example_X True example_rng = Inr ([example_X, A], [None], example_rng)
     \<and> backward example_model0 [example_X, A] example_y [None] = Inr ([gw], [gb])
     \<and> nrows gw = 1 \<and> ncols gw = 1"
proof -
  have m: "weights example_model0 = [zeros 1 1]" "biases example_model0 = [zeros 1 1]"
    "activation_funcs example_model0 = [sigmoid]"
    "activation_derivatives example_model0 = [sigmoidDerivative]"
    "\<forall>r\<in>set (dropout_rates example_model0). r \<le> 0"
    by (simp_all add: example_model0_def)
  have sh: "ncols example_X = nrows (zeros 1 1 :: farray)" "ncols (zeros 1 1 :: farray) = 1"
    "nrows (zeros 1 1 :: farray) = 1" "ncols (zeros 1 1 :: farray) = 1"
    "nrows example_y = nrows example_X" "ncols example_y = 1"
    by (simp_all add: example_X_def example_y_def zeros_def)
  have c: "ncols example_X = 1" by (simp add: example_X_def)
  from logistic_gradient_with_eps[OF m sh, of example_rng] c
  show ?thesis by auto
qed

theorem logistic_gradient_counterexample:
  "hidden_layers example_model0 = [] \<and> dropout_rates example_model0 = []
   \<and> activation_funcs example_model0 = [sigmoid] \<and> nrows example_X = 1
   \<and> (case forward example_model0 example_X True example_rng of
         Inl e \<Rightarrow> False
       | Inr (acts, masks, g) \<Rightarrow>
          (case backward example_model0 acts example_y masks of
             Inl e \<Rightarrow> False
           | Inr (gw, gb) \<Rightarrow>
              (case logistic_gradient example_X (weights example_model0 ! 0)
                      (biases example_model0 ! 0) example_y of
                 Inl e \<Rightarrow> False
               | Inr G \<Rightarrow>
                   cell (gw ! 0) 0 0 = - (1 / (2 + 8 * eps)) \<and> cell G 0 0 = - (1 / 2)
                   \<and> cell (gw ! 0) 0 0 \<noteq> cell G 0 0)))"
proof -
  have "- (1 / (2 + 8 * eps)) \<noteq> - (1 / 2 :: real)" by (simp add: eps_def)
  then show ?thesis
    by (simp add: example_eval train_eval logistic_gradient_def)
qed

section \<open>Runs on well-shaped input\<close>

lemma backward_delta_returns:
  assumes fw: "forward m X training g = Inr (acts, masks, g')"
    and ws: "well_shaped m"
    and i: "0 < i" "i < length (weights m)"
    and sh: "nrows delta = nrows X" "ncols delta = ncols (weights m ! i)"
  shows "\<exists>delta'. backward_delta m acts masks i delta = Inr delta'
           \<and> nrows delta' = nrows X \<and> ncols delta' = ncols (weights m ! (i - 1))"
proof -
  let ?d = "activation_derivatives m ! (i - 1)"
  have len: "length acts = length (weights m) + 1" "length masks = length (weights m)"
    using forward_Inr(1,2)[OF fw] by simp_all
  have ld: "length (activation_derivatives m) = length (weights m)"
    using ws by (simp add: well_shaped_def)
  have a: "nrows (acts ! i) = nrows X" "ncols (acts ! i) = ncols (weights m ! (i - 1))"
    using forward_acts_shapes[OF ws fw, of i] i by simp_all
  have adj: "nrows (weights m ! i) = ncols (weights m ! (i - 1))"
    using ws i by (auto simp: well_shaped_def dest!: spec[of _ "i - 1"])
  have reg: "(activation_funcs m ! (i - 1), ?d) \<in> registered"
    using ws i by (auto simp: well_shaped_def)
  obtain P where P: "dot delta (np_T (weights m ! i)) = Inr P"
    "nrows P = nrows X" "ncols P = ncols (weights m ! (i - 1))"
    using sh adj by (simp add: dot_def np_T_def)
  have ds: "nrows (?d (acts ! i)) = nrows P" "ncols (?d (acts ! i)) = ncols P"
    using registered_shape(3,4)[OF reg] a P by simp_all
  from broadcast2_same_shape[OF ds, of "(*)"] obtain D where
    D: "broadcast2 (*) P (?d (acts ! i)) = Inr D" "nrows D = nrows P" "ncols D = ncols P"
    by blast
  have i1: "i - 1 < length (weights m)" "i - 1 + 1 = i" using i by simp_all
  have pre: "backward_delta m acts masks i delta =
               (case masks ! (i - 1) of None \<Rightarrow> Inr D | Some M \<Rightarrow> inplace2 (*) D M)"
  proof -
    have im: "i - 1 < length masks" "i - 1 < length (activation_derivatives m)"
      "i < length acts" using i len ld by simp_all
    show ?thesis
      unfolding backward_delta_def py_get_def using i(2) im P(1) D(1) by simp
  qed
  show ?thesis
  proof (cases "masks ! (i - 1)")
    case None
    then show ?thesis using pre D P by simp
  next
    case (Some M)
    from forward_mask_entry[OF fw i1(1)] Some i1(2)
    have Ms: "nrows M = nrows (acts ! i)" "ncols M = ncols (acts ! i)" by auto
    have MD: "nrows M = nrows D" "ncols M = ncols D" using Ms a D P by simp_all
    show ?thesis
      using pre Some inplace2_same_shape[OF MD, of "(*)"] D P by simp
  qed
qed

lemma backward_loop_returns:
  assumes fw: "forward m X training g = Inr (acts, masks, g')"
    and ws: "well_shaped m" and c: "ncols X = nrows (hd (weights m))"
  shows "k \<le> length (weights m) \<Longrightarrow> nrows delta = nrows X \<Longrightarrow>
           (0 < k \<Longrightarrow> ncols delta = ncols (weights m ! (k - 1))) \<Longrightarrow>
           \<exists>pw pb. backward_loop (rev [0..<k]) m acts masks delta gw gb = Inr (pw @ gw, pb @ gb)
             \<and> length pw = k \<and> length pb = k
             \<and> (\<forall>i<k. shape (pw ! i) = shape (weights m ! i)
                        \<and> shape (pb ! i) = shape (biases m ! i))"
proof (induction k arbitrary: delta gw gb)
  case 0
  then show ?case by simp
next
  case (Suc k)
  have k: "k < length (weights m)" using Suc.prems(1) by simp
  have len: "length acts = length (weights m) + 1" using forward_Inr(1)[OF fw] by simp
  have dc: "ncols delta = ncols (weights m ! k)" using Suc.prems(3) by simp
  have a: "nrows (acts ! k) = nrows X" using forward_acts_shapes(1)[OF ws fw, of k] k by simp
  have ac: "ncols (acts ! k) = nrows (weights m ! k)"
  proof (cases k)
    case 0
    have "acts ! 0 = X" using forward_Inr(3)[OF fw] .
    moreover have "weights m \<noteq> []" using ws by (simp add: well_shaped_def)
    ultimately show ?thesis using 0 c by (simp add: hd_conv_nth)
  next
    case (Suc j)
    have "ncols (acts ! k) = ncols (weights m ! (k - 1))"
      using forward_acts_shapes(2)[OF ws fw, of k] k Suc by simp
    moreover have "nrows (weights m ! (j + 1)) = ncols (weights m ! j)"
      using ws k Suc by (simp add: well_shaped_def)
    ultimately show ?thesis using Suc by simp
  qed
  let ?G = "NDArray (ncols (acts ! k)) (ncols delta)
              (\<lambda>i j. \<Sum>l<nrows (acts ! k). cell (acts ! k) l i * cell delta l j)"
  have G: "dot (np_T (acts ! k)) delta = Inr ?G"
    using a Suc.prems(2) by (simp add: dot_def np_T_def)
  have Gs: "shape ?G = shape (weights m ! k)" using ac dc by (simp add: shape_def)
  have bs: "shape (sum_axis0 delta) = shape (biases m ! k)"
    using ws k dc by (simp add: well_shaped_def shape_def sum_axis0_def)
  have up: "rev [0..<Suc k] = k # rev [0..<k]" by simp
  have kl: "k \<le> length (weights m)" using k by simp
  show ?case
  proof (cases "0 < k")
    case False
    then have k0: "k = 0" by simp
    have "backward_loop (rev [0..<Suc k]) m acts masks delta gw gb
            = Inr ([?G] @ gw, [sum_axis0 delta] @ gb)"
      using k0 G len by (simp add: py_get_def)
    moreover have "\<forall>i<Suc k. shape ([?G] ! i) = shape (weights m ! i)
                        \<and> shape ([sum_axis0 delta] ! i) = shape (biases m ! i)"
      using k0 Gs bs by simp
    ultimately show ?thesis using k0 by (intro exI[of _ "[?G]"] exI[of _ "[sum_axis0 delta]"]) simp
  next
    case True
    from backward_delta_returns[OF fw ws True k Suc.prems(2) dc] obtain delta' where
      d': "backward_delta m acts masks k delta = Inr delta'"
      "nrows delta' = nrows X" "ncols delta' = ncols (weights m ! (k - 1))"
      by blast
    from Suc.IH[OF kl d'(2), of "?G # gw" "sum_axis0 delta # gb"] d'(3)
    obtain pw pb where
      r: "backward_loop (rev [0..<k]) m acts masks delta' (?G # gw) (sum_axis0 delta # gb)
            = Inr (pw @ ?G # gw, pb @ sum_axis0 delta # gb)"
      and l: "length pw = k" "length pb = k"
      and s: "\<forall>i<k. shape (pw ! i) = shape (weights m ! i)
                        \<and> shape (pb ! i) = shape (biases m ! i)"
      by auto
    have "backward_loop (rev [0..<Suc k]) m acts masks delta gw gb
            = Inr ((pw @ [?G]) @ gw, (pb @ [sum_axis0 delta]) @ gb)"
      unfolding up using True G d'(1) r k len by (simp add: py_get_def)
    moreover have "\<forall>i<Suc k. shape ((pw @ [?G]) ! i) = shape (weights m ! i)
                        \<and> shape ((pb @ [sum_axis0 delta]) ! i) = shape (biases m ! i)"
      using s l Gs bs by (auto simp: nth_append less_Suc_eq)
    ultimately show ?thesis
      using l by (intro exI[of _ "pw @ [?G]"] exI[of _ "pb @ [sum_axis0 delta]"]) simp
  qed
qed

text \<open>
  On the cache of a forward pass through a well-shaped model, with one label row per
  example, \<^verbatim>\<open>backward\<close> returns, and every gradient has the shape of its
  parameter.
\<close>

lemma backward_returns:
  assumes fw: "forward m X training g = Inr (acts, masks, g')"
    and ws: "well_shaped m" and c: "ncols X = nrows (hd (weights m))"
    and y: "nrows y = nrows X" "ncols y = 1"
  shows "\<exists>gw gb. backward m acts y masks = Inr (gw, gb)
           \<and> length gw = length (weights m) \<and> length gb = length (weights m)
           \<and> (\<forall>i<length (weights m). shape (gw ! i) = shape (weights m ! i)
                        \<and> shape (gb ! i) = shape (biases m ! i))"
proof -
  let ?L = "length (weights m)"
  have L: "0 < ?L" "length (activation_derivatives m) = ?L" "ncols (last (weights m)) = 1"
    using ws by (auto simp: well_shaped_def)
  have len: "length acts = ?L + 1" using forward_Inr(1)[OF fw] by simp
  have ne: "acts \<noteq> []" "activation_derivatives m \<noteq> []" using len L by auto
  have la: "nrows (last acts) = nrows X" "ncols (last acts) = 1"
    using forward_shapes[OF ws fw] by simp_all
  have reg: "(last (activation_funcs m), last (activation_derivatives m)) \<in> registered"
  proof -
    have "(activation_funcs m ! (?L - 1), activation_derivatives m ! (?L - 1)) \<in> registered"
      and "length (activation_funcs m) = ?L"
      using ws L by (auto simp: well_shaped_def)
    moreover from this have "activation_funcs m \<noteq> []" using L by auto
    ultimately show ?thesis using L ne by (simp add: last_conv_nth)
  qed
  obtain D where D: "binary_cross_entropyDerivative y (last acts) = Inr D"
    "nrows D = nrows X" "ncols D = 1"
    using broadcast2_same_shape[of "last acts" y "\<lambda>t p. (p - t) / (p * (1 - p) + eps)"] la y
    unfolding binary_cross_entropyDerivative_def by auto
  let ?da = "last (activation_derivatives m) (last acts)"
  have das: "nrows ?da = nrows D" "ncols ?da = ncols D"
    using registered_shape(3,4)[OF reg] la D by simp_all
  from broadcast2_same_shape[OF das, of "(*)"] obtain delta where
    delta: "broadcast2 (*) D ?da = Inr delta" "nrows delta = nrows X" "ncols delta = 1"
    using D by auto
  have lw: "last (weights m) = weights m ! (?L - 1)" using L by (simp add: last_conv_nth)
  have dc: "0 < ?L \<Longrightarrow> ncols delta = ncols (weights m ! (?L - 1))"
    using delta L lw by simp
  from backward_loop_returns[OF fw ws c le_refl delta(2) dc, of "[]" "[]"]
  obtain pw pb where
    r: "backward_loop (rev [0..<?L]) m acts masks delta [] [] = Inr (pw, pb)"
    and l: "length pw = ?L" "length pb = ?L"
    and s: "\<forall>i<?L. shape (pw ! i) = shape (weights m ! i)
                        \<and> shape (pb ! i) = shape (biases m ! i)"
    by auto
  have "backward m acts y masks = Inr (pw, pb)"
    using ne D(1) delta(1) r by (simp add: backward_def py_last_def)
  then show ?thesis using l s by blast
qed

lemma update_layer_returns:
  assumes "i < length (weights m)" "i < length (biases m)" "i < length gw" "i < length gb"
    and "shape (gw ! i) = shape (weights m ! i)" "shape (gb ! i) = shape (biases m ! i)"
  shows "\<exists>m'. update_layer m gw gb i = Inr m'"
proof -
  have w: "nrows (map_array (\<lambda>x. learning_rate m * x) (gw ! i)) = nrows (weights m ! i)"
    "ncols (map_array (\<lambda>x. learning_rate m * x) (gw ! i)) = ncols (weights m ! i)"
    using assms(5) by (simp_all add: map_array_def shape_def)
  have b: "nrows (map_array (\<lambda>x. learning_rate m * x) (gb ! i)) = nrows (biases m ! i)"
    "ncols (map_array (\<lambda>x. learning_rate m * x) (gb ! i)) = ncols (biases m ! i)"
    using assms(6) by (simp_all add: map_array_def shape_def)
  show ?thesis
    using assms(1-4) inplace2_same_shape[OF w, of "(-)"] inplace2_same_shape[OF b, of "(-)"]
    by (simp add: update_layer_def py_get_def Let_def)
qed

lemma update_loop_returns:
  assumes "\<forall>i\<in>set idxs. i < length (weights m) \<and> i < length (biases m)
             \<and> i < length gw \<and> i < length gb
             \<and> shape (gw ! i) = shape (weights m ! i) \<and> shape (gb ! i) = shape (biases m ! i)"
  shows "\<exists>m'. update_loop idxs m gw gb = Inr m'"
  using assms
proof (induction idxs arbitrary: m)
  case Nil
  show ?case by simp
next
  case (Cons i rest)
  then obtain m1 where l: "update_layer m gw gb i = Inr m1"
    using update_layer_returns[of i m gw gb] by auto
  note n = same_layout_nth[OF update_layer_layout(1)[OF l]]
  have "\<forall>j\<in>set rest. j < length (weights m1) \<and> j < length (biases m1)
             \<and> j < length gw \<and> j < length gb
             \<and> shape (gw ! j) = shape (weights m1 ! j) \<and> shape (gb ! j) = shape (biases m1 ! j)"
    using Cons.prems n by simp
  from Cons.IH[OF this] show ?case using l by simp
qed

lemma update_weights_returns:
  assumes "length (biases m) = length (weights m)"
    and "length gw = length (weights m)" "length gb = length (weights m)"
    and "\<forall>i<length (weights m). shape (gw ! i) = shape (weights m ! i)
                        \<and> shape (gb ! i) = shape (biases m ! i)"
  shows "\<exists>m'. update_weights m gw gb = Inr m'"
  unfolding update_weights_def
  by (rule update_loop_returns) (use assms in simp)

lemma binary_cross_entropy_returns:
  assumes "nrows p = nrows y" "ncols p = ncols y"
  shows "\<exists>l. binary_cross_entropy y p = Inr l"
  using broadcast2_same_shape[OF assms, of "\<lambda>t p. t * ln (p + eps) + (1 - t) * ln (1 - p + eps)"]
  by (auto simp: binary_cross_entropy_def)

lemma batch_ok_same_layout:
  assumes "same_layout m m'" and "weights m \<noteq> []"
  shows "batch_ok m' X y = batch_ok m X y"
proof -
  note n = same_layout_nth[OF assms(1)]
  have "weights m' \<noteq> []" using n(1) assms(2) by auto
  moreover have "shape (weights m' ! 0) = shape (weights m ! 0)" using n(3)[of 0] assms(2) by simp
  ultimately show ?thesis using assms(2) by (simp add: batch_ok_def hd_conv_nth shape_eq)
qed

lemma validate_returns:
  assumes ws: "well_shaped m"
    and v: "X_val = None \<or> y_val = None
              \<or> (\<exists>Xv yv. X_val = Some Xv \<and> y_val = Some yv \<and> batch_ok m Xv yv)"
  shows "\<exists>m' g' vl'. validate m X_val y_val g vl = Inr (m', g', vl')"
proof (cases "\<exists>Xv yv. X_val = Some Xv \<and> y_val = Some yv")
  case False
  then show ?thesis by (auto simp: validate_def split: option.splits)
next
  case True
  then obtain Xv yv where s: "X_val = Some Xv" "y_val = Some yv" by blast
  then have ok: "batch_ok m Xv yv" using v by auto
  then have c: "ncols Xv = nrows (hd (weights m))" by (simp add: batch_ok_def)
  from forward_returns[OF ws c] obtain acts masks g1 where
    fw: "forward m Xv False g = Inr (acts, masks, g1)" by blast
  have "length acts = length (weights m) + 1" using forward_Inr(1)[OF fw] .
  then have ne: "acts \<noteq> []" by auto
  have "nrows (last acts) = nrows yv" "ncols (last acts) = ncols yv"
    using forward_shapes[OF ws fw] ok by (simp_all add: batch_ok_def)
  from binary_cross_entropy_returns[OF this] obtain l where
    "binary_cross_entropy yv (last acts) = Inr l" by blast
  then show ?thesis using s fw ne by (simp add: validate_def py_last_def Let_def)
qed

lemma train_epoch_returns:
  assumes ws: "well_shaped m" and ok: "batch_ok m X y"
    and v: "(X_val = None) \<or> (\<exists>Xv yv. X_val = Some Xv \<and> y_val = Some yv \<and> batch_ok m Xv yv)"
  shows "\<exists>m' g' vl'. train_epoch X y X_val y_val epoch m g vl = Inr (m', g', vl')"
proof -
  have c: "ncols X = nrows (hd (weights m))" and yb: "nrows y = nrows X" "ncols y = 1"
    using ok by (simp_all add: batch_ok_def)
  have wne: "weights m \<noteq> []" and lb: "length (biases m) = length (weights m)"
    using ws by (simp_all add: well_shaped_def)
  from forward_returns[OF ws c] obtain acts masks g1 where
    fw: "forward m X True g = Inr (acts, masks, g1)" by blast
  from backward_returns[OF fw ws c yb] obtain gw gb where
    bw: "backward m acts y masks = Inr (gw, gb)"
    and gl: "length gw = length (weights m)" "length gb = length (weights m)"
    and gs: "\<forall>i<length (weights m). shape (gw ! i) = shape (weights m ! i)
                        \<and> shape (gb ! i) = shape (biases m ! i)"
    by blast
  from update_weights_returns[OF lb gl gs] obtain m1 where
    up: "update_weights m gw gb = Inr m1" by blast
  have "length acts = length (weights m) + 1" using forward_Inr(1)[OF fw] .
  then have ne: "acts \<noteq> []" by auto
  have "nrows (last acts) = nrows y" "ncols (last acts) = ncols y"
    using forward_shapes[OF ws fw] yb by simp_all
  from binary_cross_entropy_returns[OF this] obtain l where
    bce: "binary_cross_entropy y (last acts) = Inr l" by blast
  let ?m2 = "m1\<lparr>train_losses := train_losses m1 @ [l + l2_penalty (weights m1) (l2_lambda m1)]\<rparr>"
  have sl: "same_layout m ?m2"
    using update_weights_fields(2)[OF up] by (simp add: same_layout_def)
  have ws2: "well_shaped ?m2" using well_shaped_same_layout[OF sl ws] .
  have v2: "X_val = None \<or> y_val = None
              \<or> (\<exists>Xv yv. X_val = Some Xv \<and> y_val = Some yv \<and> batch_ok ?m2 Xv yv)"
    using v batch_ok_same_layout[OF sl wne] by auto
  from validate_returns[OF ws2 v2] obtain m3 g2 vl' where
    va: "validate ?m2 X_val y_val g1 vl = Inr (m3, g2, vl')" by blast
  have rep: "report m3 y (last acts) X_val epoch vl' = None"
  proof (cases X_val)
    case None
    then show ?thesis using bce by (simp add: report_def)
  next
    case (Some Xv)
    then obtain yv where "y_val = Some yv" using v by auto
    then have "vl' \<noteq> None" using validate_Inr(2)[OF va] Some by auto
    then show ?thesis using bce by (auto simp: report_def)
  qed
  show ?thesis
    using fw bw up ne bce va rep by (simp add: train_epoch_def py_last_def Let_def)
qed

lemma train_loop_returns:
  assumes "well_shaped m" and "batch_ok m X y"
    and "(X_val = None) \<or> (\<exists>Xv yv. X_val = Some Xv \<and> y_val = Some yv \<and> batch_ok m Xv yv)"
  shows "\<exists>m' g'. train_loop idxs X y X_val y_val m g vl = Inr (m', g')"
  using assms
proof (induction idxs arbitrary: m g vl)
  case Nil
  show ?case by simp
next
  case (Cons epoch rest)
  from train_epoch_returns[OF Cons.prems] obtain m1 g1 vl1 where
    e: "train_epoch X y X_val y_val epoch m g vl = Inr (m1, g1, vl1)" by blast
  note sl = train_epoch_Inr(3)[OF e]
  have wne: "weights m \<noteq> []" using Cons.prems(1) by (simp add: well_shaped_def)
  have "well_shaped m1" using well_shaped_same_layout[OF sl Cons.prems(1)] .
  moreover have "batch_ok m1 X y" using batch_ok_same_layout[OF sl wne] Cons.prems(2) by simp
  moreover have "(X_val = None) \<or> (\<exists>Xv yv. X_val = Some Xv \<and> y_val = Some yv \<and> batch_ok m1 Xv yv)"
    using batch_ok_same_layout[OF sl wne] Cons.prems(3) by auto
  ultimately obtain m' g' where
    "train_loop rest X y X_val y_val m1 g1 vl1 = Inr (m', g')"
    using Cons.IH by blast
  then show ?case using e by simp
qed

text \<open>
  On a well-shaped model and a batch of the right width, with validation data complete
  or without \<^verbatim>\<open>X_val\<close>, \<^verbatim>\<open>train\<close> returns: it has appended one train loss
  per epoch, one validation loss per epoch when validation data is given, and the model
  is still well-shaped.
\<close>

lemma train_returns:
  assumes "well_shaped m" and "batch_ok m X y"
    and "(X_val = None) \<or> (\<exists>Xv yv. X_val = Some Xv \<and> y_val = Some yv \<and> batch_ok m Xv yv)"
  shows "\<exists>m' g'. train m X y X_val y_val g = Inr (m', g')
           \<and> length (train_losses m') = length (train_losses m) + nat (epochs m)
           \<and> length (val_losses m') = length (val_losses m)
                + (if X_val \<noteq> None \<and> y_val \<noteq> None then nat (epochs m) else 0)
           \<and> well_shaped m'"
proof -
  from train_loop_returns[OF assms] obtain m' g' where
    t: "train m X y X_val y_val g = Inr (m', g')" unfolding train_def by blast
  show ?thesis
    using t train_histories[OF t] well_shaped_same_layout[OF train_histories(3)[OF t] assms(1)]
    by simp
qed

text \<open>
  On the same input with \<^verbatim>\<open>X_val\<close> given and \<^verbatim>\<open>y_val\<close> left out, \<^verbatim>\<open>train\<close>
  raises the \<^verbatim>\<open>NameError\<close> of \<^verbatim>\<open>val_loss\<close> in epoch 0, whatever the number of
  epochs, after one train loss has been appended.
\<close>

lemma train_X_val_only_NameError:
  assumes ws: "well_shaped m" and ok: "batch_ok m X y" and ep: "0 < epochs m"
  shows "\<exists>m'. train m X y (Some Xv) None g = Inl (NameError ''val_loss'', m')
           \<and> length (train_losses m') = length (train_losses m) + 1
           \<and> val_losses m' = val_losses m"
proof -
  have c: "ncols X = nrows (hd (weights m))" and yb: "nrows y = nrows X" "ncols y = 1"
    using ok by (simp_all add: batch_ok_def)
  have lb: "length (biases m) = length (weights m)"
    using ws by (simp_all add: well_shaped_def)
  from forward_returns[OF ws c] obtain acts masks g1 where
    fw: "forward m X True g = Inr (acts, masks, g1)" by blast
  from backward_returns[OF fw ws c yb] obtain gw gb where
    bw: "backward m acts y masks = Inr (gw, gb)"
    and gl: "length gw = length (weights m)" "length gb = length (weights m)"
    and gs: "\<forall>i<length (weights m). shape (gw ! i) = shape (weights m ! i)
                        \<and> shape (gb ! i) = shape (biases m ! i)"
    by blast
  from update_weights_returns[OF lb gl gs] obtain m1 where
    up: "update_weights m gw gb = Inr m1" by blast
  have "length acts = length (weights m) + 1" using forward_Inr(1)[OF fw] .
  then have ne: "acts \<noteq> []" by auto
  have "nrows (last acts) = nrows y" "ncols (last acts) = ncols y"
    using forward_shapes[OF ws fw] yb by simp_all
  from binary_cross_entropy_returns[OF this] obtain l where
    bce: "binary_cross_entropy y (last acts) = Inr l" by blast
  let ?m2 = "m1\<lparr>train_losses := train_losses m1 @ [l + l2_penalty (weights m1) (l2_lambda m1)]\<rparr>"
  have h: "train_losses m1 = train_losses m" "val_losses m1 = val_losses m"
    by (subst update_weights_fields(1)[OF up], simp)+
  have rep: "report ?m2 y (last acts) (Some Xv) 0 None = Some (NameError ''val_loss'')"
    using bce by (simp add: report_def)
  have e: "train_epoch X y (Some Xv) None 0 m g None = Inl (NameError ''val_loss'', ?m2)"
    using fw bw up ne bce rep
    by (simp add: train_epoch_def py_last_def validate_X_val_only Let_def)
  obtain n where n: "nat (epochs m) = Suc n" using ep by (cases "nat (epochs m)") auto
  have "[0..<nat (epochs m)] = 0 # [1..<Suc n]" unfolding n by (simp add: upt_conv_Cons)
  then have "train m X y (Some Xv) None g = Inl (NameError ''val_loss'', ?m2)"
    using e by (simp add: train_def)
  then show ?thesis using h by simp
qed

end
